theory Spec2Isabelle
  imports Complex_Main
begin

section \<open>Tokens, logits and errors\<close>

text \<open>
  The inference acceleration core of the T3 speech-token model:
  \<^verbatim>\<open>src/chatterbox/models/t3/inference_optimized.py\<close> (the step function
  \<^verbatim>\<open>generate_t3_token\<close> and the driver \<^verbatim>\<open>inference_optimized\<close>),
  \<^verbatim>\<open>src/chatterbox/models/t3/direct_inference.py\<close> (the loop of
  \<^verbatim>\<open>DirectT3Inference.generate_fast\<close>) and the cache builders that
  \<^verbatim>\<open>apply_faster_inference.py\<close> adds to the T3 class.

  A token is a Python int. A logits vector (a tensor of shape \<open>(V)\<close>) is a list of
  reals, index \<open>j\<close> holding the logit of token \<open>j\<close>; the floating-point numbers of the
  source are idealised as reals. A logits tensor of shape \<open>(B, 1, V)\<close> is the list of
  its \<open>B\<close> rows. Exceptions are values of \<open>py_error\<close>.
\<close>

type_synonym token = int
type_synonym logits = "real list"

datatype py_error = IndexError | AssertionError | RuntimeError | ZeroDivisionError

text \<open>
  A logits processor of the pipeline is a callable \<open>(input_ids, scores) \<rightarrow> scores\<close>. The
  repetition penalty always receives a history; the two warpers receive the history in
  the step function and \<^verbatim>\<open>None\<close> in the direct loop.
\<close>

type_synonym processor = "token list \<Rightarrow> logits \<Rightarrow> logits"
type_synonym warper = "token list option \<Rightarrow> logits \<Rightarrow> logits"

section \<open>The step function: classifier-free guidance and the logits pipeline\<close>

text \<open>
  \<^verbatim>\<open>generate_t3_token\<close>, lines 69-76: row 0 of the batch is the conditional row; with
  \<^verbatim>\<open>cfg_weight > 0.0\<close> row 1 is read as well (an IndexError when the batch has no such
  row) and the two are combined elementwise.
\<close>

definition cfg_combine :: "real \<Rightarrow> logits \<Rightarrow> logits \<Rightarrow> logits" where
  "cfg_combine cfg_weight logits_cond logits_uncond =
     map2 (\<lambda>c u. c + cfg_weight * (c - u)) logits_cond logits_uncond"

definition t3_cfg_logits :: "real \<Rightarrow> logits list \<Rightarrow> py_error + logits" where
  "t3_cfg_logits cfg_weight output_logits =
     (case output_logits of
        [] \<Rightarrow> Inl IndexError
      | logits_cond # rest \<Rightarrow>
          if cfg_weight > 0 then
            (case rest of
               [] \<Rightarrow> Inl IndexError
             | logits_uncond # _ \<Rightarrow> Inr (cfg_combine cfg_weight logits_cond logits_uncond))
          else Inr logits_cond)"

text \<open>
  Temperature scaling, \<^verbatim>\<open>logits / temperature\<close>. (Torch divides by zero into
  infinities; the model's reals do not, so values at temperature 0 mean nothing.)
\<close>

definition temperature_scale :: "real \<Rightarrow> logits \<Rightarrow> logits" where
  "temperature_scale temperature logits = map (\<lambda>x. x / temperature) logits"

text \<open>
  \<^verbatim>\<open>generate_t3_token\<close>, lines 78-92: each processor runs when it is not
  \<^verbatim>\<open>None\<close>, the temperature division when \<^verbatim>\<open>temperature != 1.0\<close>; every
  processor is handed the whole tensor \<^verbatim>\<open>generated_ids\<close>.
\<close>

definition t3_process_logits ::
  "processor option \<Rightarrow> real \<Rightarrow> warper option \<Rightarrow> warper option \<Rightarrow> token list \<Rightarrow> logits \<Rightarrow> logits"
where
  "t3_process_logits repetition_penalty_processor temperature min_p_warper top_p_warper
       generated_ids logits0 =
     (let logits1 = (case repetition_penalty_processor of
                       None \<Rightarrow> logits0
                     | Some f \<Rightarrow> f generated_ids logits0);
          logits2 = (if temperature \<noteq> 1 then temperature_scale temperature logits1 else logits1);
          logits3 = (case min_p_warper of
                       None \<Rightarrow> logits2
                     | Some f \<Rightarrow> f (Some generated_ids) logits2);
          logits4 = (case top_p_warper of
                       None \<Rightarrow> logits3
                     | Some f \<Rightarrow> f (Some generated_ids) logits3)
      in logits4)"

section \<open>The direct-inference loop: guidance and pipeline\<close>

text \<open>
  \<^verbatim>\<open>DirectT3Inference.generate_fast\<close>, lines 196-203: guidance runs when
  \<^verbatim>\<open>cfg_weight > 0.0 and logits.shape[0] == 2\<close>; then row 0 is taken.
\<close>

definition generate_fast_cfg :: "real \<Rightarrow> logits list \<Rightarrow> py_error + logits" where
  "generate_fast_cfg cfg_weight logits =
     (if cfg_weight > 0 \<and> length logits = 2
      then Inr (cfg_combine cfg_weight (logits ! 0) (logits ! 1))
      else (case logits of [] \<Rightarrow> Inl IndexError | l # _ \<Rightarrow> Inr l))"

text \<open>
  \<^verbatim>\<open>generate_fast\<close>, lines 205-218. The temperature division comes first; the
  repetition penalty runs once the list \<^verbatim>\<open>generated_tokens\<close> (BOS and the tokens
  sampled so far) has more than one element, on that list; the warpers are gated by the
  caller's \<^verbatim>\<open>min_p\<close> and \<^verbatim>\<open>top_p\<close> and receive \<^verbatim>\<open>None\<close> as history.
\<close>

definition generate_fast_logits ::
  "processor \<Rightarrow> warper \<Rightarrow> warper \<Rightarrow> real \<Rightarrow> real \<Rightarrow> real \<Rightarrow> token list \<Rightarrow> logits \<Rightarrow> logits"
where
  "generate_fast_logits repetition_penalty_processor min_p_warper top_p_warper
       temperature min_p top_p generated_tokens logits0 =
     (let logits1 = (if temperature \<noteq> 1 then temperature_scale temperature logits0 else logits0);
          logits2 = (if length generated_tokens > 1
                     then repetition_penalty_processor generated_tokens logits1
                     else logits1);
          logits3 = (if min_p > 0 then min_p_warper None logits2 else logits2);
          logits4 = (if top_p < 1 then top_p_warper None logits3 else logits3)
      in logits4)"

section \<open>The pipeline as the specification words it\<close>

text \<open>
  Specification 4.3: ordered stages, each \<open>(history_tokens, logits) \<rightarrow> logits'\<close>, composed
  left to right: repetition penalty, temperature scaling, min-p filtering, top-p
  filtering. This definition follows the specification's words; the two above follow
  the code.
\<close>

definition spec_pipeline ::
  "processor \<Rightarrow> real \<Rightarrow> processor \<Rightarrow> processor \<Rightarrow> token list \<Rightarrow> logits \<Rightarrow> logits"
where
  "spec_pipeline rep_stage temperature min_p_stage top_p_stage history logits =
     top_p_stage history
       (min_p_stage history
          (temperature_scale temperature
             (rep_stage history logits)))"

text \<open>
  Modelled from the spec: the repetition-penalty processor is the transformers
  library's \<^verbatim>\<open>RepetitionPenaltyLogitsProcessor\<close>, whose code is not part of the
  sources. Specification 4.3, stage 1: it divides the logit of any token already
  present in \<open>history_tokens\<close> by the penalty factor.
\<close>

definition repetition_penalty :: "real \<Rightarrow> processor" where
  "repetition_penalty penalty history logits =
     map (\<lambda>(j, x). if int j \<in> set history then x / penalty else x) (enumerate 0 logits)"

text \<open>A warper that leaves the logits as they are (a filter that masks nothing).\<close>

definition keep_all :: warper where
  "keep_all history logits = logits"

text \<open>A warper as a stage of the pipeline: handed the history, or handed \<^verbatim>\<open>None\<close>.\<close>

definition with_history :: "warper \<Rightarrow> processor" where
  "with_history f history = f (Some history)"

definition without_history :: "warper \<Rightarrow> processor" where
  "without_history f history = f None"

section \<open>The collaborators of the core\<close>

text \<open>
  The hyperparameters \<^verbatim>\<open>self.hp\<close> the core reads. Their class is not part of the
  sources, so the values are parameters.
\<close>

record hparams =
  start_speech_token :: token
  stop_speech_token :: token
  max_speech_tokens :: int

section \<open>The direct-inference loop\<close>

text \<open>
  What \<^verbatim>\<open>generate_fast\<close> reads of the \<^verbatim>\<open>DirectT3Inference\<close> object and of the
  model it wraps. The state \<open>'h\<close> stands for the hidden states of the transformer and
  the state of torch's random number generator: \<open>di_speech_head\<close> projects the current
  hidden states to logits, \<open>di_sample\<close> draws a token, \<open>di_tfmr\<close> runs the forward pass
  on the next embedding. The positional cache is there when the model has a
  \<^verbatim>\<open>speech_pos_emb\<close>.
\<close>

record ('h, 'e) direct_inference =
  di_hp :: hparams
  di_repetition_penalty_processor :: processor
  di_min_p_warper :: warper
  di_top_p_warper :: warper
  di_speech_head :: "'h \<Rightarrow> logits list"
  di_sample :: "'h \<Rightarrow> logits \<Rightarrow> token \<times> 'h"
  di_tfmr :: "'h \<Rightarrow> 'e list \<Rightarrow> 'h"
  di_speech_emb_weight :: "token \<Rightarrow> 'e"
  di_speech_pos_cache :: "'e list option"

text \<open>
  The loop of \<^verbatim>\<open>generate_fast\<close>, lines 191-247, \<^verbatim>\<open>for i in range(max_new_tokens)\<close>:
  the first numeric argument counts the iterations that remain, the second is \<open>i\<close>.
  A sampled stop token leaves the loop before it is appended to
  \<^verbatim>\<open>generated_tokens\<close>.
\<close>

fun generate_fast_loop ::
  "('h, 'e::plus) direct_inference \<Rightarrow> real \<Rightarrow> real \<Rightarrow> real \<Rightarrow> real \<Rightarrow> nat \<Rightarrow> nat
     \<Rightarrow> token list \<Rightarrow> 'h \<Rightarrow> py_error + token list"
where
  "generate_fast_loop d temperature min_p top_p cfg_weight 0 i generated_tokens h =
     Inr generated_tokens"
| "generate_fast_loop d temperature min_p top_p cfg_weight (Suc n) i generated_tokens h =
     (case generate_fast_cfg cfg_weight (di_speech_head d h) of
        Inl e \<Rightarrow> Inl e
      | Inr logits0 \<Rightarrow>
          (let logits = generate_fast_logits (di_repetition_penalty_processor d)
                          (di_min_p_warper d) (di_top_p_warper d)
                          temperature min_p top_p generated_tokens logits0;
               (next_token, h1) = di_sample d h logits
           in if next_token = stop_speech_token (di_hp d) then Inr generated_tokens
              else
                (case (case di_speech_pos_cache d of
                         None \<Rightarrow> Inr (di_speech_emb_weight d next_token)
                       | Some cache \<Rightarrow>
                           if i < length cache
                           then Inr (di_speech_emb_weight d next_token + cache ! i)
                           else Inl IndexError) of
                   Inl e \<Rightarrow> Inl e
                 | Inr next_emb \<Rightarrow>
                     generate_fast_loop d temperature min_p top_p cfg_weight n (i + 1)
                       (generated_tokens @ [next_token])
                       (di_tfmr d h1 (if cfg_weight > 0 then [next_emb, next_emb]
                                      else [next_emb])))))"


section \<open>The collaborators of the step function and the driver\<close>

text \<open>
  What the driver and the step function are handed and do not define themselves. The
  state \<open>'h\<close> stands for everything the forward passes and the sampler read and write
  behind the driver's back: the contents of the key-value cache, the prompt's
  embeddings and the state of torch's random number generator. An embedding is a value
  of \<open>'e\<close>.
  \<^item> \<open>TOKEN_LIMIT\<close>: the constant imported from \<^verbatim>\<open>t3_cuda_graphs\<close> (a module
    that is not part of the sources; the other scripts of the repository set it to 1500).
  \<^item> the three processors, as \<^verbatim>\<open>update_processors\<close> has left them.
  \<^item> \<open>sample\<close>: \<^verbatim>\<open>torch.multinomial(torch.softmax(logits, dim=-1), 1)\<close>.
  \<^item> \<open>patched_model\<close>: one forward pass over a batch of embedding rows, returning
    the logits of each row's last position.
  \<^item> \<open>initial_forward_pass\<close>: the forward pass over the prompt of the given length.
  \<^item> the two embedding caches, read by index.
  \<^item> \<open>get_next_bucket\<close>: imported from \<^verbatim>\<open>t3_cuda_graphs\<close> as well.
\<close>

record ('h, 'e) t3 =
  hp :: hparams
  TOKEN_LIMIT :: nat
  repetition_penalty_processor :: "processor option"
  min_p_warper :: "warper option"
  top_p_warper :: "warper option"
  sample :: "'h \<Rightarrow> logits \<Rightarrow> token \<times> 'h"
  patched_model :: "'h \<Rightarrow> 'e list \<Rightarrow> logits list \<times> 'h"
  initial_forward_pass :: "'h \<Rightarrow> nat \<Rightarrow> logits list \<times> 'h"
  speech_embedding_cache :: "token \<Rightarrow> 'e"
  speech_pos_embedding_cache :: "nat \<Rightarrow> 'e"
  get_next_bucket :: "int \<Rightarrow> int \<Rightarrow> int \<Rightarrow> int"

section \<open>The step function\<close>

text \<open>
  \<^verbatim>\<open>generate_t3_token\<close>, lines 51-116. The tensor \<^verbatim>\<open>generated_ids\<close> has shape
  \<open>(1, bos_len + TOKEN_LIMIT)\<close> and is the list of its only row; \<^verbatim>\<open>batch_idx\<close> is
  that row. The write \<^verbatim>\<open>generated_ids[batch_idx, i_tensor] = next_token\<close> raises
  when the index is outside the row. With guidance the next embedding is fed twice.
  The arguments \<^verbatim>\<open>stride_length\<close> and \<^verbatim>\<open>max_position\<close> are not read by the
  function.
\<close>

definition generate_t3_token ::
  "('h, 'e::plus) t3 \<Rightarrow> logits list \<Rightarrow> nat \<Rightarrow> token list \<Rightarrow> real \<Rightarrow> real \<Rightarrow> 'h
     \<Rightarrow> py_error + (token \<times> logits list \<times> token list \<times> 'h)"
where
  "generate_t3_token m output_logits i_tensor generated_ids cfg_weight temperature h =
     (case t3_cfg_logits cfg_weight output_logits of
        Inl e \<Rightarrow> Inl e
      | Inr logits0 \<Rightarrow>
          (let logits = t3_process_logits (repetition_penalty_processor m) temperature
                          (min_p_warper m) (top_p_warper m) generated_ids logits0;
               (next_token, h1) = sample m h logits
           in if i_tensor < length generated_ids then
                (let generated_ids' = generated_ids[i_tensor := next_token];
                     next_emb = speech_embedding_cache m next_token
                                  + speech_pos_embedding_cache m i_tensor;
                     inputs_embeds = (if cfg_weight > 0 then [next_emb, next_emb]
                                      else [next_emb]);
                     (output_logits', h2) = patched_model m h1 inputs_embeds
                 in Inr (next_token, output_logits', generated_ids', h2))
              else Inl IndexError))"

section \<open>The static key-value cache\<close>

text \<open>
  The handle \<^verbatim>\<open>self.kv_cache\<close>: a \<^verbatim>\<open>StaticCache\<close> of the transformers library,
  allocated for a batch size and a cache length. Its contents belong to the opaque
  state; \<^verbatim>\<open>reset()\<close> clears them in place and leaves the handle and its shape alone.
\<close>

record static_cache =
  sc_batch_size :: nat
  sc_max_cache_len :: int

definition StaticCache :: "nat \<Rightarrow> int \<Rightarrow> static_cache" where
  "StaticCache batch_size max_cache_len =
     \<lparr>sc_batch_size = batch_size, sc_max_cache_len = max_cache_len\<rparr>"

definition reset :: "static_cache \<Rightarrow> static_cache" where
  "reset c = c"

text \<open>
  \<^verbatim>\<open>inference_optimized\<close>, lines 227-240: a handle is allocated when the object has
  none; an existing handle is reset and used.
\<close>

definition setup_kv_cache :: "static_cache option \<Rightarrow> nat \<Rightarrow> int \<Rightarrow> static_cache" where
  "setup_kv_cache self_kv_cache effective_batch_size max_cache_len =
     (case self_kv_cache of
        None \<Rightarrow> StaticCache effective_batch_size max_cache_len
      | Some c \<Rightarrow> reset c)"

section \<open>The generation driver\<close>

text \<open>
  The arguments of \<^verbatim>\<open>inference_optimized\<close> that the claims depend on
  (\<^verbatim>\<open>prepend_prompt_speech_tokens\<close> is \<^verbatim>\<open>None\<close>, as the driver asserts first).
  \<open>embeds_len\<close> is the sequence length of the embeddings that
  \<^verbatim>\<open>prepare_input_embeds\<close> returns (a method that is not part of the sources).
\<close>

record request =
  embeds_len :: nat
  length_guesstimate :: int
  max_new_tokens :: "int option"
  temperature :: real
  cfg_weight :: real
  max_cache_len :: int
  generate_token_backend :: string
  stride_length :: int

text \<open>
  The operations the driver invokes on \<^verbatim>\<open>self.cudagraph_wrapper\<close>, in the order
  it invokes them: \<^verbatim>\<open>guard()\<close>, and a call of the wrapper with its
  \<^verbatim>\<open>max_position\<close>.
\<close>

datatype wrapper_op = Guard | Call int

text \<open>The variables the decode loop carries from one iteration to the next.\<close>

record 'h gen_state =
  generated_ids :: "token list"
  output_logits :: "logits list"
  hidden :: 'h
  wrapper_log :: "wrapper_op list"

definition bos_len :: nat where
  "bos_len = 1"

definition PAD_TOKEN_ID :: "hparams \<Rightarrow> token" where
  "PAD_TOKEN_ID h = stop_speech_token h + 1"

text \<open>Lines 224-225: the buffer is filled with the pad value, then BOS is written.\<close>

definition initial_generated_ids :: "hparams \<Rightarrow> nat \<Rightarrow> token list" where
  "initial_generated_ids h token_limit =
     (replicate (bos_len + token_limit) (PAD_TOKEN_ID h))[0 := start_speech_token h]"

text \<open>Python's \<^verbatim>\<open>p in s\<close> on strings.\<close>

fun is_substring :: "string \<Rightarrow> string \<Rightarrow> bool" where
  "is_substring p [] = (p = [])"
| "is_substring p (c # cs) = (take (length p) (c # cs) = p \<or> is_substring p cs)"

text \<open>
  Modelled from the spec: the class \<^verbatim>\<open>T3StepCUDAGraphWrapper\<close> of the module
  \<^verbatim>\<open>t3_cuda_graphs\<close> is not part of the sources; the driver builds it around
  \<^verbatim>\<open>generate_t3_token\<close> (lines 256-265). Specification 4.5 and 8: a call of the
  wrapper executes the step function, replayed from a captured graph or eagerly, and
  both ways give the same results.
\<close>

definition cudagraph_wrapper_call ::
  "('h, 'e::plus) t3 \<Rightarrow> logits list \<Rightarrow> nat \<Rightarrow> token list \<Rightarrow> real \<Rightarrow> real \<Rightarrow> 'h
     \<Rightarrow> py_error + (token \<times> logits list \<times> token list \<times> 'h)"
where
  "cudagraph_wrapper_call = generate_t3_token"

text \<open>
  One iteration of the loop, lines 286-328, for the loop variable \<open>i\<close>; the result
  carries \<open>True\<close> when the iteration has left the loop by \<^verbatim>\<open>break\<close>.
  \<^verbatim>\<open>indices\<close> is \<^verbatim>\<open>arange(1, max_new_tokens + 1)\<close>, so \<^verbatim>\<open>i_tensor\<close> is
  \<open>i * stride_length + 1\<close>. The stop check runs when \<open>i * stride_length\<close> has passed
  \<^verbatim>\<open>length_guesstimate\<close> and \<open>i\<close> is a multiple of \<^verbatim>\<open>20 // stride_length\<close>.
  The backend \<^verbatim>\<open>cudagraphs-manual\<close> calls the wrapper, handing it the bucket of
  the position, and the call is logged; every other backend runs the step function
  (eagerly, or a compilation of it).
\<close>

definition decode_iteration ::
  "('h, 'e::plus) t3 \<Rightarrow> request \<Rightarrow> int \<Rightarrow> int \<Rightarrow> int \<Rightarrow> 'h gen_state
     \<Rightarrow> py_error + (bool \<times> 'h gen_state)"
where
  "decode_iteration m req seq_len stride i s =
     (let i_tensor = nat (i * stride + 1);
          stop_seen =
            (if i * stride > length_guesstimate req then
               (if 20 div stride = 0 then Inl ZeroDivisionError
                else Inr (i mod (20 div stride) = 0
                          \<and> stop_speech_token (hp m) \<in> set (generated_ids s)))
             else Inr False)
      in case stop_seen of
           Inl e \<Rightarrow> Inl e
         | Inr True \<Rightarrow> Inr (True, s)
         | Inr False \<Rightarrow>
             (let manual = (generate_token_backend req = ''cudagraphs-manual'');
                  log = (if manual
                         then wrapper_log s
                                @ [Call (get_next_bucket m (i + seq_len) 250 (int (TOKEN_LIMIT m)))]
                         else wrapper_log s);
                  generate_token = (if manual then cudagraph_wrapper_call
                                    else generate_t3_token)
              in case generate_token m (output_logits s) i_tensor (generated_ids s)
                        (cfg_weight req) (temperature req) (hidden s) of
                   Inl e \<Rightarrow> Inl e
                 | Inr (next_token, output_logits', generated_ids', h') \<Rightarrow>
                     Inr (False, \<lparr>generated_ids = generated_ids',
                                  output_logits = output_logits',
                                  hidden = h',
                                  wrapper_log = log\<rparr>)))"

text \<open>
  The loop \<^verbatim>\<open>for i in range(n)\<close>: the first argument counts the iterations that
  remain, the second is the loop variable.
\<close>

fun decode_loop ::
  "('h, 'e::plus) t3 \<Rightarrow> request \<Rightarrow> int \<Rightarrow> int \<Rightarrow> nat \<Rightarrow> int \<Rightarrow> 'h gen_state
     \<Rightarrow> py_error + 'h gen_state"
where
  "decode_loop m req seq_len stride 0 i s = Inr s"
| "decode_loop m req seq_len stride (Suc n) i s =
     (case decode_iteration m req seq_len stride i s of
        Inl e \<Rightarrow> Inl e
      | Inr (True, s') \<Rightarrow> Inr s'
      | Inr (False, s') \<Rightarrow> decode_loop m req seq_len stride n (i + 1) s')"

text \<open>
  Lines 211-222: the prompt length, the default and the clamp of
  \<^verbatim>\<open>max_new_tokens\<close>, and the assertion on the clamped value. With guidance the BOS
  embedding is appended to the prompt (lines 192-195).
\<close>

definition prompt_len :: "request \<Rightarrow> int" where
  "prompt_len req = int (embeds_len req) + (if cfg_weight req > 0 then 1 else 0)"

definition requested_new_tokens :: "hparams \<Rightarrow> request \<Rightarrow> int" where
  "requested_new_tokens h req =
     (case max_new_tokens req of None \<Rightarrow> max_speech_tokens h | Some n \<Rightarrow> n)"

definition clamp_max_new_tokens :: "hparams \<Rightarrow> request \<Rightarrow> int" where
  "clamp_max_new_tokens h req =
     (let seq_len = prompt_len req;
          max_new_tokens0 = requested_new_tokens h req
      in if max_cache_len req < seq_len + max_new_tokens0
         then max_cache_len req - seq_len
         else max_new_tokens0)"

text \<open>Line 282.\<close>

definition effective_stride :: "request \<Rightarrow> int" where
  "effective_stride req =
     (if is_substring ''stride'' (generate_token_backend req) then stride_length req else 1)"

text \<open>
  The state in which the loop starts: the buffer of lines 224-225, the logits of the
  initial forward pass (line 253) and the one \<^verbatim>\<open>guard()\<close> of line 267.
\<close>

definition loop_start :: "('h, 'e) t3 \<Rightarrow> request \<Rightarrow> 'h \<Rightarrow> 'h gen_state" where
  "loop_start m req h0 =
     (let (logits0, h1) = initial_forward_pass m h0 (nat (prompt_len req))
      in \<lparr>generated_ids = initial_generated_ids (hp m) (TOKEN_LIMIT m),
          output_logits = logits0,
          hidden = h1,
          wrapper_log = [Guard]\<rparr>)"

text \<open>
  \<^verbatim>\<open>inference_optimized\<close> up to the end of the loop, lines 211-328. The result
  holds the clamped \<^verbatim>\<open>max_new_tokens\<close>, the cache handle the request has used and
  the state the loop has ended in. \<^verbatim>\<open>torch.arange(1, max_new_tokens + 1)\<close> raises
  a RuntimeError when its upper bound is below its lower bound, and
  \<^verbatim>\<open>max_new_tokens // stride_length\<close> a ZeroDivisionError for the stride 0.
\<close>

definition inference_run ::
  "('h, 'e::plus) t3 \<Rightarrow> request \<Rightarrow> static_cache option \<Rightarrow> 'h
     \<Rightarrow> py_error + (int \<times> static_cache \<times> 'h gen_state)"
where
  "inference_run m req self_kv_cache h0 =
     (let effective_batch_size = (if cfg_weight req > 0 then 2 else 1);
          seq_len = prompt_len req;
          max_new = clamp_max_new_tokens (hp m) req
      in if \<not> max_new < int (TOKEN_LIMIT m) then Inl AssertionError
         else
           (let kv_cache = setup_kv_cache self_kv_cache effective_batch_size (max_cache_len req);
                s0 = loop_start m req h0;
                stride = effective_stride req
            in if max_new < 0 then Inl RuntimeError
               else if stride = 0 then Inl ZeroDivisionError
               else
                 (case decode_loop m req seq_len stride (nat (max_new div stride)) 0 s0 of
                    Inl e \<Rightarrow> Inl e
                  | Inr s \<Rightarrow> Inr (max_new, kv_cache, s))))"

text \<open>
  Lines 336-343: the positions of the stop token in the buffer, in increasing order,
  and the slice the driver returns. \<open>py_slice_to\<close> is Python's \<^verbatim>\<open>xs[:n]\<close>, where a
  negative \<open>n\<close> counts from the end.
\<close>

fun positions_from :: "nat \<Rightarrow> token \<Rightarrow> token list \<Rightarrow> nat list" where
  "positions_from k x [] = []"
| "positions_from k x (y # ys) =
     (if y = x then k # positions_from (k + 1) x ys else positions_from (k + 1) x ys)"

definition py_slice_to :: "int \<Rightarrow> 'a list \<Rightarrow> 'a list" where
  "py_slice_to n xs = (if n < 0 then take (length xs - nat (- n)) xs else take (nat n) xs)"

definition select_tokens :: "token \<Rightarrow> int \<Rightarrow> token list \<Rightarrow> token list" where
  "select_tokens stop_token max_new ids =
     (let stop_positions = positions_from 0 stop_token ids;
          actual_length = (if length stop_positions > 0
                           then int (hd stop_positions) + 1
                           else int bos_len + max_new)
      in py_slice_to actual_length ids)"

definition inference_optimized ::
  "('h, 'e::plus) t3 \<Rightarrow> request \<Rightarrow> static_cache option \<Rightarrow> 'h \<Rightarrow> py_error + token list"
where
  "inference_optimized m req self_kv_cache h0 =
     (case inference_run m req self_kv_cache h0 of
        Inl e \<Rightarrow> Inl e
      | Inr (max_new, kv_cache, s) \<Rightarrow>
          Inr (select_tokens (stop_speech_token (hp m)) max_new (generated_ids s)))"

section \<open>The iterations of the loop\<close>

text \<open>
  The state in which iteration \<open>k\<close> of the loop starts, when the iterations before it
  have all run the step function (none has left the loop, none has raised).
\<close>

fun iteration_state ::
  "('h, 'e::plus) t3 \<Rightarrow> request \<Rightarrow> int \<Rightarrow> int \<Rightarrow> 'h gen_state \<Rightarrow> nat \<Rightarrow> 'h gen_state option"
where
  "iteration_state m req seq_len stride s0 0 = Some s0"
| "iteration_state m req seq_len stride s0 (Suc k) =
     (case iteration_state m req seq_len stride s0 k of
        None \<Rightarrow> None
      | Some s \<Rightarrow>
          (case decode_iteration m req seq_len stride (int k) s of
             Inr (False, s') \<Rightarrow> Some s'
           | _ \<Rightarrow> None))"

text \<open>
  The highest index of the buffer written when iteration \<open>k\<close> starts: the BOS position
  before the first iteration, and the index \<^verbatim>\<open>i_tensor\<close> of iteration \<open>k - 1\<close> after.
\<close>

definition highest_written :: "int \<Rightarrow> nat \<Rightarrow> nat" where
  "highest_written stride k =
     (if k = 0 then bos_len - 1 else nat ((int k - 1) * stride + 1))"

definition pad_beyond :: "token \<Rightarrow> nat \<Rightarrow> token list \<Rightarrow> bool" where
  "pad_beyond pad j ids = list_all (\<lambda>t. t = pad) (drop (Suc j) ids)"

text \<open>
  Specification 4.5, as a property of the operations invoked on the wrapper: each call
  of the wrapper has a \<^verbatim>\<open>guard()\<close> of its own right before it.
\<close>

fun guard_before_each_call :: "wrapper_op list \<Rightarrow> bool" where
  "guard_before_each_call [] = True"
| "guard_before_each_call (Call b # ops) = False"
| "guard_before_each_call (Guard # Call b # ops) = guard_before_each_call ops"
| "guard_before_each_call (Guard # ops) = guard_before_each_call ops"

section \<open>The embedding cache builders\<close>

text \<open>
  The two methods that \<^verbatim>\<open>apply_faster_inference.py\<close> (lines 86-104) adds to the T3
  class. A cached tensor is the list of its entries along dimension 0 together with
  its dtype; \<^verbatim>\<open>.to(dtype=d)\<close> returns the tensor itself when it already has the
  dtype, and converts every entry otherwise (the conversion of an entry is a
  parameter).
\<close>

datatype dtype = Float32 | Float16 | BFloat16

record 'e tensor =
  entries :: "'e list"
  dtype_of :: dtype

definition to_dtype :: "(dtype \<Rightarrow> 'e \<Rightarrow> 'e) \<Rightarrow> dtype \<Rightarrow> 'e tensor \<Rightarrow> 'e tensor" where
  "to_dtype convert d t =
     (if dtype_of t = d then t
      else \<lparr>entries = map (convert d) (entries t), dtype_of = d\<rparr>)"

text \<open>
  \<^verbatim>\<open>get_speech_pos_embedding_cache(max_gen_tokens, dtype)\<close>: the attribute
  \<^verbatim>\<open>_speech_pos_embedding_cache\<close> before the call is \<open>self_cache\<close> (\<open>None\<close> when the
  object has no such attribute), the result is the attribute after the call, which is
  also what the method returns. The rebuilt cache stacks
  \<^verbatim>\<open>speech_pos_emb.get_fixed_embedding(pos)\<close> for every position and is moved to the
  device; it keeps the dtype of the embeddings, \<open>emb_dtype\<close>. The dtype is converted
  in the \<^verbatim>\<open>elif\<close> branch only.
\<close>

definition get_speech_pos_embedding_cache ::
  "(dtype \<Rightarrow> 'e \<Rightarrow> 'e) \<Rightarrow> (nat \<Rightarrow> 'e) \<Rightarrow> dtype \<Rightarrow> 'e tensor option \<Rightarrow> nat \<Rightarrow> dtype \<Rightarrow> 'e tensor"
where
  "get_speech_pos_embedding_cache convert get_fixed_embedding emb_dtype self_cache
       max_gen_tokens d =
     (let rebuilt = \<lparr>entries = map get_fixed_embedding [0..<max_gen_tokens],
                     dtype_of = emb_dtype\<rparr>
      in case self_cache of
           None \<Rightarrow> rebuilt
         | Some c \<Rightarrow>
             if length (entries c) < max_gen_tokens then rebuilt
             else if dtype_of c \<noteq> d then to_dtype convert d c
             else c)"

text \<open>
  \<^verbatim>\<open>init_speech_embedding_cache(vocab_size, dtype)\<close>, likewise; the rebuilt cache is
  a copy of \<^verbatim>\<open>speech_emb.weight\<close> converted to the requested dtype.
\<close>

definition init_speech_embedding_cache ::
  "(dtype \<Rightarrow> 'e \<Rightarrow> 'e) \<Rightarrow> 'e tensor \<Rightarrow> 'e tensor option \<Rightarrow> nat \<Rightarrow> dtype \<Rightarrow> 'e tensor"
where
  "init_speech_embedding_cache convert weight self_cache vocab_size d =
     (case self_cache of
        None \<Rightarrow> to_dtype convert d weight
      | Some c \<Rightarrow>
          if length (entries c) < vocab_size then to_dtype convert d weight
          else if dtype_of c \<noteq> d then to_dtype convert d c
          else c)"

section \<open>Test doubles\<close>

text \<open>
  The hyperparameters of the released model, and those of a toy model whose
  vocabulary has three tokens: BOS is 0, the stop token 1, and so the pad value 2.
\<close>

definition released_hp :: hparams where
  "released_hp =
     \<lparr>start_speech_token = 6561, stop_speech_token = 6562, max_speech_tokens = 4096\<rparr>"

definition toy_hp :: hparams where
  "toy_hp = \<lparr>start_speech_token = 0, stop_speech_token = 1, max_speech_tokens = 4096\<rparr>"

text \<open>
  A scripted stand-in for the collaborators: the sampler emits the tokens of a script,
  one per call (and token 0 once the script is used up), the forward passes return
  fixed logits over three tokens, one row per input row (two rows for the prompt), an
  embedding is a number, and the bucket of a position is the next multiple of the
  bucket size, capped.
\<close>

definition scripted_t3 :: "hparams \<Rightarrow> nat \<Rightarrow> (token list, int) t3" where
  "scripted_t3 h token_limit =
     \<lparr>hp = h,
      TOKEN_LIMIT = token_limit,
      repetition_penalty_processor = Some (repetition_penalty (6 / 5)),
      min_p_warper = Some keep_all,
      top_p_warper = Some keep_all,
      sample = (\<lambda>script l. case script of [] \<Rightarrow> (0, []) | t # ts \<Rightarrow> (t, ts)),
      patched_model = (\<lambda>script e. (map (\<lambda>_. [1, 0, 2]) e, script)),
      initial_forward_pass = (\<lambda>script n. ([[1, 0, 2], [0, 0, 1]], script)),
      speech_embedding_cache = (\<lambda>t. t),
      speech_pos_embedding_cache = (\<lambda>i. int i),
      get_next_bucket = (\<lambda>pos b mx. min mx (((pos + b - 1) div b) * b))\<rparr>"

text \<open>
  A request with the defaults of \<^verbatim>\<open>inference_optimized\<close> for a prompt of 30
  positions, but for a budget of 50 tokens and a cache of 32 positions; the same
  request with guidance; and a request for 3000 tokens with the default cache of 2048
  positions after a prompt of 100.
\<close>

definition small_request :: request where
  "small_request =
     \<lparr>embeds_len = 30, length_guesstimate = 400, max_new_tokens = Some 50,
      temperature = 1, cfg_weight = 0, max_cache_len = 32,
      generate_token_backend = ''cudagraphs-manual'', stride_length = 1\<rparr>"

definition guided_request :: request where
  "guided_request = small_request\<lparr>cfg_weight := 1 / 2\<rparr>"

definition large_request :: request where
  "large_request =
     \<lparr>embeds_len = 100, length_guesstimate = 400, max_new_tokens = Some 3000,
      temperature = 1, cfg_weight = 0, max_cache_len = 2048,
      generate_token_backend = ''cudagraphs-manual'', stride_length = 1\<rparr>"


text \<open>
  A sampler that draws the token of the highest logit (the first one when several
  are highest), in place of \<^verbatim>\<open>torch.multinomial\<close>: with it the token of a step
  shows which logits the step has sampled from.
\<close>

fun argmax_from :: "nat \<Rightarrow> real \<Rightarrow> nat \<Rightarrow> logits \<Rightarrow> nat" where
  "argmax_from best bv j [] = best"
| "argmax_from best bv j (x # xs) =
     (if bv < x then argmax_from j x (j + 1) xs else argmax_from best bv (j + 1) xs)"

definition greedy :: "logits \<Rightarrow> token" where
  "greedy l = (case l of [] \<Rightarrow> 0 | x # xs \<Rightarrow> int (argmax_from 0 x 1 xs))"

text \<open>
  Stand-ins with that sampler, over a vocabulary of three tokens: for the step
  function and the driver, with forward passes that return the logits \<open>[1, 3/2, 2]\<close>
  for every row, and for the direct-inference loop, whose speech head returns the
  logits \<open>[3, 2, 0]\<close>. The repetition penalty halves a logit.
\<close>

definition greedy_t3 :: "hparams \<Rightarrow> nat \<Rightarrow> (unit, int) t3" where
  "greedy_t3 h token_limit =
     \<lparr>hp = h,
      TOKEN_LIMIT = token_limit,
      repetition_penalty_processor = Some (repetition_penalty 2),
      min_p_warper = Some keep_all,
      top_p_warper = Some keep_all,
      sample = (\<lambda>u l. (greedy l, u)),
      patched_model = (\<lambda>u e. (map (\<lambda>_. [1, 3 / 2, 2]) e, u)),
      initial_forward_pass = (\<lambda>u n. ([[1, 3 / 2, 2], [0, 0, 1]], u)),
      speech_embedding_cache = (\<lambda>t. t),
      speech_pos_embedding_cache = (\<lambda>i. int i),
      get_next_bucket = (\<lambda>pos b mx. min mx (((pos + b - 1) div b) * b))\<rparr>"

definition greedy_direct :: "(unit, int) direct_inference" where
  "greedy_direct =
     \<lparr>di_hp = toy_hp,
      di_repetition_penalty_processor = repetition_penalty 2,
      di_min_p_warper = keep_all,
      di_top_p_warper = keep_all,
      di_speech_head = (\<lambda>u. [[3, 2, 0]]),
      di_sample = (\<lambda>u l. (greedy l, u)),
      di_tfmr = (\<lambda>u e. u),
      di_speech_emb_weight = (\<lambda>t. t),
      di_speech_pos_cache = None\<rparr>"

text \<open>
  A request for 4 tokens with the stride 2. The table of backends has no entry whose
  name holds \<^verbatim>\<open>stride\<close>; such a name selects the eager step function (line 270)
  and keeps the caller's \<^verbatim>\<open>stride_length\<close> (line 282).
\<close>

definition strided_request :: request where
  "strided_request =
     \<lparr>embeds_len = 30, length_guesstimate = 400, max_new_tokens = Some 4,
      temperature = 1, cfg_weight = 0, max_cache_len = 2048,
      generate_token_backend = ''eager-strided'', stride_length = 2\<rparr>"

text \<open>What a run of the driver has logged on the wrapper, and the cache handle it has used.\<close>

definition run_log :: "py_error + (int \<times> static_cache \<times> 'h gen_state) \<Rightarrow> wrapper_op list" where
  "run_log r = (case r of Inl e \<Rightarrow> [] | Inr (max_new, kv_cache, s) \<Rightarrow> wrapper_log s)"

definition run_kv_cache ::
  "py_error + (int \<times> static_cache \<times> 'h gen_state) \<Rightarrow> static_cache option" where
  "run_kv_cache r = (case r of Inl e \<Rightarrow> None | Inr (max_new, kv_cache, s) \<Rightarrow> Some kv_cache)"

section \<open>Helper facts on the pipeline\<close>

lemma temperature_scale_one: "temperature_scale 1 logits = logits"
  by (simp add: temperature_scale_def)

lemma length_cfg_combine:
  "length (cfg_combine w c u) = min (length c) (length u)"
  by (simp add: cfg_combine_def)

lemma nth_cfg_combine:
  "j < length c \<Longrightarrow> j < length u \<Longrightarrow> cfg_combine w c u ! j = c ! j + w * (c ! j - u ! j)"
  by (simp add: cfg_combine_def)

lemma t3_process_logits_rep_first:
  "t3_process_logits (Some rp) T mp tp ids l = t3_process_logits None T mp tp ids (rp ids l)"
  by (simp add: t3_process_logits_def)

lemma repetition_penalty_temperature_commute:
  "repetition_penalty p toks (temperature_scale T l) =
     temperature_scale T (repetition_penalty p toks l)"
  unfolding repetition_penalty_def temperature_scale_def
  by (induction l rule: rev_induct) (auto simp: enumerate_append_eq)

section \<open>Helper facts on the step function and the loop\<close>

lemma generate_t3_token_InrD:
  assumes "generate_t3_token m ol i ids w T h = Inr (tok, ol', ids', h')"
  shows "i < length ids" and "ids' = ids[i := tok]"
    and "\<exists>l0. t3_cfg_logits w ol = Inr l0
           \<and> tok = fst (sample m h (t3_process_logits (repetition_penalty_processor m) T
                   (min_p_warper m) (top_p_warper m) ids l0))"
  using assms
  by (auto simp: generate_t3_token_def Let_def split: sum.splits prod.splits if_splits)

lemma generate_t3_token_one_row:
  "0 < w \<Longrightarrow> generate_t3_token m [row0] i ids w T h = Inl IndexError"
  by (simp add: generate_t3_token_def t3_cfg_logits_def)

lemma generate_t3_token_row0:
  "w \<le> 0 \<Longrightarrow>
     generate_t3_token m (row0 # rest) i ids w T h = generate_t3_token m [row0] i ids w T h"
  by (simp add: generate_t3_token_def t3_cfg_logits_def)

lemma decode_iteration_break:
  assumes "decode_iteration m req sl st i s = Inr (True, s')"
  shows "s' = s" and "stop_speech_token (hp m) \<in> set (generated_ids s)"
  using assms
  by (auto simp: decode_iteration_def cudagraph_wrapper_call_def Let_def
        split: sum.splits prod.splits if_splits bool.splits)

lemma decode_iteration_step:
  assumes "decode_iteration m req sl st i s = Inr (False, s')"
  shows "\<exists>tok ol' h'.
           generate_t3_token m (output_logits s) (nat (i * st + 1)) (generated_ids s)
             (cfg_weight req) (temperature req) (hidden s) = Inr (tok, ol', generated_ids s', h')
           \<and> output_logits s' = ol' \<and> hidden s' = h'
           \<and> wrapper_log s' =
               (if generate_token_backend req = ''cudagraphs-manual''
                then wrapper_log s @ [Call (get_next_bucket m (i + sl) 250 (int (TOKEN_LIMIT m)))]
                else wrapper_log s)"
  using assms
  by (auto simp: decode_iteration_def cudagraph_wrapper_call_def Let_def
        split: sum.splits prod.splits if_splits bool.splits)

lemma decode_iteration_writes:
  assumes "decode_iteration m req sl st i s = Inr (False, s')"
  shows "nat (i * st + 1) < length (generated_ids s)"
    and "\<exists>tok. generated_ids s' = (generated_ids s)[nat (i * st + 1) := tok]"
proof -
  from decode_iteration_step [OF assms] obtain tok ol' h' where
    g: "generate_t3_token m (output_logits s) (nat (i * st + 1)) (generated_ids s)
          (cfg_weight req) (temperature req) (hidden s) = Inr (tok, ol', generated_ids s', h')"
    by blast
  show "nat (i * st + 1) < length (generated_ids s)"
    using generate_t3_token_InrD(1) [OF g] .
  show "\<exists>tok. generated_ids s' = (generated_ids s)[nat (i * st + 1) := tok]"
    using generate_t3_token_InrD(2) [OF g] by blast
qed

lemma decode_iteration_length:
  "decode_iteration m req sl st i s = Inr (b, s') \<Longrightarrow>
     length (generated_ids s') = length (generated_ids s)"
  by (cases b) (auto dest: decode_iteration_break decode_iteration_writes)


lemma decode_iteration_log:
  "decode_iteration m req sl st i s = Inr (b, s') \<Longrightarrow>
     \<exists>calls. wrapper_log s' = wrapper_log s @ calls \<and> Guard \<notin> set calls"
  by (cases b) (auto dest: decode_iteration_break decode_iteration_step split: if_splits)

lemma decode_loop_log:
  "decode_loop m req sl st n i s = Inr s' \<Longrightarrow>
     \<exists>calls. wrapper_log s' = wrapper_log s @ calls \<and> Guard \<notin> set calls"
proof (induction n arbitrary: i s)
  case 0
  then show ?case by simp
next
  case (Suc n)
  show ?case
  proof (cases "decode_iteration m req sl st i s")
    case (Inl e)
    with Suc.prems show ?thesis by simp
  next
    case (Inr r)
    obtain b s1 where r: "r = (b, s1)" by (cases r)
    from decode_iteration_log Inr r obtain c1 where
      c1: "wrapper_log s1 = wrapper_log s @ c1" "Guard \<notin> set c1" by blast
    show ?thesis
    proof (cases b)
      case True
      with Suc.prems Inr r have "s' = s1" by simp
      with c1 show ?thesis by blast
    next
      case False
      with Suc.prems Inr r have "decode_loop m req sl st n (i + 1) s1 = Inr s'" by simp
      from Suc.IH [OF this] obtain c2 where
        "wrapper_log s' = wrapper_log s1 @ c2" "Guard \<notin> set c2" by blast
      with c1 have "wrapper_log s' = wrapper_log s @ (c1 @ c2)" "Guard \<notin> set (c1 @ c2)"
        by auto
      then show ?thesis by blast
    qed
  qed
qed

lemma decode_loop_reaches:
  "decode_loop m req sl st n (int j) sj = Inr s' \<Longrightarrow>
   iteration_state m req sl st s0 j = Some sj \<Longrightarrow>
     \<exists>k. j \<le> k \<and> k \<le> j + n \<and> iteration_state m req sl st s0 k = Some s'"
proof (induction n arbitrary: j sj)
  case 0
  then show ?case by auto
next
  case (Suc n)
  show ?case
  proof (cases "decode_iteration m req sl st (int j) sj")
    case (Inl e)
    with Suc.prems show ?thesis by simp
  next
    case (Inr r)
    obtain b s1 where r: "r = (b, s1)" by (cases r)
    show ?thesis
    proof (cases b)
      case True
      with Suc.prems Inr r have "s' = s1" by simp
      moreover from True Inr r have "s1 = sj" by (auto dest: decode_iteration_break)
      ultimately show ?thesis using Suc.prems(2) by auto
    next
      case False
      with Suc.prems Inr r have run: "decode_loop m req sl st n (int (Suc j)) s1 = Inr s'"
        by (simp add: add.commute)
      from False Inr r Suc.prems(2) have "iteration_state m req sl st s0 (Suc j) = Some s1"
        by simp
      from Suc.IH [OF run this] show ?thesis by (metis Suc_leD add_Suc_shift)
    qed
  qed
qed

lemma pad_beyond_iff:
  "pad_beyond pad j ids \<longleftrightarrow> (\<forall>i. j < i \<and> i < length ids \<longrightarrow> ids ! i = pad)"
proof
  assume p: "pad_beyond pad j ids"
  show "\<forall>i. j < i \<and> i < length ids \<longrightarrow> ids ! i = pad"
  proof (intro allI impI)
    fix i assume i: "j < i \<and> i < length ids"
    then have "ids ! i = drop (Suc j) ids ! (i - Suc j)" by simp
    moreover from i have "i - Suc j < length (drop (Suc j) ids)" by auto
    ultimately show "ids ! i = pad"
      using p by (simp add: pad_beyond_def list_all_length)
  qed
next
  assume a: "\<forall>i. j < i \<and> i < length ids \<longrightarrow> ids ! i = pad"
  show "pad_beyond pad j ids"
    unfolding pad_beyond_def list_all_length
  proof (intro allI impI)
    fix n assume "n < length (drop (Suc j) ids)"
    then have b: "j < Suc j + n \<and> Suc j + n < length ids" by simp
    with a have "ids ! (Suc j + n) = pad" by blast
    moreover from b have "Suc j \<le> length ids" by simp
    ultimately show "drop (Suc j) ids ! n = pad" by (simp only: nth_drop)
  qed
qed

lemma initial_generated_ids_facts:
  "length (initial_generated_ids h n) = bos_len + n"
  "initial_generated_ids h n ! 0 = start_speech_token h"
  "pad_beyond (PAD_TOKEN_ID h) 0 (initial_generated_ids h n)"
  by (auto simp: initial_generated_ids_def bos_len_def pad_beyond_iff nth_Cons')

lemma highest_written_Suc: "highest_written st (Suc k) = nat (int k * st + 1)"
  by (simp add: highest_written_def)

lemma highest_written_mono:
  "1 \<le> st \<Longrightarrow> highest_written st k < highest_written st (Suc k)"
proof (cases k)
  case 0
  then show ?thesis by (simp add: highest_written_def bos_len_def)
next
  case (Suc n)
  assume st: "1 \<le> st"
  then have nn: "0 \<le> int n * st" by simp
  have "int n * st + 1 < int (Suc n) * st + 1" using st by (simp add: algebra_simps)
  moreover have "0 \<le> int (Suc n) * st" using st by simp
  then have "0 < int (Suc n) * st + 1" by linarith
  ultimately have "nat (int n * st + 1) < nat (int (Suc n) * st + 1)"
    by (simp only: nat_mono_iff)
  with Suc show ?thesis by (simp add: highest_written_def)
qed

lemma highest_written_first: "highest_written st 0 < highest_written st (Suc 0)"
  by (simp add: highest_written_def bos_len_def)

lemma iteration_state_invariant:
  assumes "iteration_state m req sl st s0 k = Some s"
    and "1 \<le> st \<or> k = 0"
    and "generated_ids s0 = initial_generated_ids (hp m) (TOKEN_LIMIT m)"
  shows "length (generated_ids s) = bos_len + TOKEN_LIMIT m
         \<and> generated_ids s ! 0 = start_speech_token (hp m)
         \<and> pad_beyond (PAD_TOKEN_ID (hp m)) (highest_written st k) (generated_ids s)"
  using assms(1,2)
proof (induction k arbitrary: s)
  case 0
  then show ?case
    using assms(3) by (simp add: initial_generated_ids_facts highest_written_def bos_len_def)
next
  case (Suc k)
  from Suc.prems(2) have st: "1 \<le> st" by simp
  from Suc.prems(1) obtain s1 where
    s1: "iteration_state m req sl st s0 k = Some s1"
    and it: "decode_iteration m req sl st (int k) s1 = Inr (False, s)"
    by (auto split: option.splits sum.splits prod.splits bool.splits)
  from Suc.IH [OF s1] st have
    len: "length (generated_ids s1) = bos_len + TOKEN_LIMIT m"
    and bos: "generated_ids s1 ! 0 = start_speech_token (hp m)"
    and pad: "pad_beyond (PAD_TOKEN_ID (hp m)) (highest_written st k) (generated_ids s1)"
    by auto
  from decode_iteration_writes(2) [OF it] obtain tok where
    upd: "generated_ids s = (generated_ids s1)[nat (int k * st + 1) := tok]" by blast
  have pos: "0 < nat (int k * st + 1)" using st by (simp add: zero_less_nat_eq add_pos_nonneg)
  have "length (generated_ids s) = bos_len + TOKEN_LIMIT m" using upd len by simp
  moreover have "generated_ids s ! 0 = start_speech_token (hp m)"
    using upd bos pos by simp
  moreover have "pad_beyond (PAD_TOKEN_ID (hp m)) (highest_written st (Suc k)) (generated_ids s)"
    unfolding pad_beyond_iff highest_written_Suc
  proof (intro allI impI)
    fix i assume i: "nat (int k * st + 1) < i \<and> i < length (generated_ids s)"
    from highest_written_mono [OF st, of k] have "highest_written st k < i"
      using i by (simp add: highest_written_Suc)
    with pad i upd have "generated_ids s1 ! i = PAD_TOKEN_ID (hp m)"
      by (simp add: pad_beyond_iff)
    with i upd show "generated_ids s ! i = PAD_TOKEN_ID (hp m)" by simp
  qed
  ultimately show ?case by blast
qed

lemma generated_ids_loop_start:
  "generated_ids (loop_start m req h0) = initial_generated_ids (hp m) (TOKEN_LIMIT m)"
  by (simp add: loop_start_def split: prod.splits)

lemma wrapper_log_loop_start: "wrapper_log (loop_start m req h0) = [Guard]"
  by (simp add: loop_start_def split: prod.splits)

lemma iterations_need_stride:
  assumes "0 \<le> (mn::int)" and "k \<le> nat (mn div st)"
  shows "1 \<le> st \<or> k = 0"
proof (cases "1 \<le> st")
  case True
  then show ?thesis by simp
next
  case False
  then have "st = 0 \<or> st < 0" by linarith
  then have "mn div st \<le> 0"
    using assms(1) by (auto simp: div_nonneg_neg_le0)
  with assms(2) show ?thesis by simp
qed

lemma repetition_penalty_nth:
  "j < length l \<Longrightarrow>
     repetition_penalty p history l ! j = (if int j \<in> set history then l ! j / p else l ! j)"
  by (simp add: repetition_penalty_def nth_enumerate_eq)

lemma positions_from_empty: "positions_from k x ys = [] \<longleftrightarrow> x \<notin> set ys"
  by (induction ys arbitrary: k) auto

lemma hd_positions_from:
  "x \<in> set ys \<Longrightarrow> hd (positions_from k x ys) = k + length (takeWhile (\<lambda>y. y \<noteq> x) ys)"
  by (induction ys arbitrary: k) auto

lemma length_takeWhile_stop:
  "x \<in> set ys \<Longrightarrow> length (takeWhile (\<lambda>y. y \<noteq> x) ys) < length ys"
  by (induction ys) auto

lemma take_length_takeWhile: "take (length (takeWhile P ys)) ys = takeWhile P ys"
  by (induction ys) auto

lemma first_stop_facts:
  assumes "x \<in> set ys"
  defines "K \<equiv> length (takeWhile (\<lambda>y. y \<noteq> x) ys)"
  shows "K < length ys" and "ys ! K = x" and "x \<notin> set (take K ys)"
proof -
  show k: "K < length ys"
    unfolding K_def using assms(1) by (rule length_takeWhile_stop)
  show "ys ! K = x"
    unfolding K_def using nth_length_takeWhile [of "\<lambda>y. y \<noteq> x" ys] k [unfolded K_def] by simp
  have "take K ys = takeWhile (\<lambda>y. y \<noteq> x) ys"
    unfolding K_def by (rule take_length_takeWhile)
  then show "x \<notin> set (take K ys)" by (auto dest: set_takeWhileD)
qed

lemma select_tokens_stop:
  assumes "stop \<in> set ids"
  shows "select_tokens stop mn ids = take (length (takeWhile (\<lambda>y. y \<noteq> stop) ids) + 1) ids"
  using assms
  by (simp add: select_tokens_def Let_def positions_from_empty hd_positions_from py_slice_to_def
        nat_add_distrib)

lemma select_tokens_no_stop:
  assumes "stop \<notin> set ids" and "0 \<le> mn"
  shows "select_tokens stop mn ids = take (bos_len + nat mn) ids"
  using assms
  by (simp add: select_tokens_def Let_def positions_from_empty py_slice_to_def nat_add_distrib)

lemma inference_run_InrD:
  assumes "inference_run m req kv h0 = Inr (mn, c, s)"
  shows "mn = clamp_max_new_tokens (hp m) req"
    and "0 \<le> mn" and "mn < int (TOKEN_LIMIT m)"
    and "effective_stride req \<noteq> 0"
    and "c = setup_kv_cache kv (if 0 < cfg_weight req then 2 else 1) (max_cache_len req)"
    and "decode_loop m req (prompt_len req) (effective_stride req)
           (nat (mn div effective_stride req)) 0 (loop_start m req h0) = Inr s"
  using assms
  by (auto simp: inference_run_def Let_def split: if_splits sum.splits)

lemma inference_optimized_InrD:
  assumes "inference_optimized m req kv h0 = Inr out"
  shows "\<exists>mn c s. inference_run m req kv h0 = Inr (mn, c, s)
           \<and> out = select_tokens (stop_speech_token (hp m)) mn (generated_ids s)"
  using assms
  by (auto simp: inference_optimized_def split: sum.splits prod.splits)


lemma t3_cfg_logits_rows:
  assumes "(if 0 < w then 2 else 1) \<le> length ol"
  shows "\<exists>l. t3_cfg_logits w ol = Inr l"
proof (cases ol)
  case Nil
  with assms show ?thesis by (simp split: if_splits)
next
  case (Cons r rest)
  with assms show ?thesis
    by (cases rest) (auto simp: t3_cfg_logits_def split: if_splits)
qed

lemma generate_t3_token_total:
  assumes rows: "\<And>h e. length (fst (patched_model m h e)) = length e"
    and ol: "(if 0 < w then 2 else 1) \<le> length ol"
    and idx: "i < length ids"
  shows "\<exists>tok ol' ids' h'. generate_t3_token m ol i ids w T h = Inr (tok, ol', ids', h')
           \<and> (if 0 < w then 2 else 1) \<le> length ol'"
proof -
  from t3_cfg_logits_rows [OF ol] obtain l0 where
    l0: "t3_cfg_logits w ol = Inr l0" by blast
  obtain tok h1 where
    sm: "sample m h (t3_process_logits (repetition_penalty_processor m) T
           (min_p_warper m) (top_p_warper m) ids l0) = (tok, h1)"
    by force
  define emb where "emb = speech_embedding_cache m tok + speech_pos_embedding_cache m i"
  define inputs where "inputs = (if 0 < w then [emb, emb] else [emb])"
  obtain ol' h2 where pm: "patched_model m h1 inputs = (ol', h2)" by force
  have "length ol' = length inputs" using rows [of h1 inputs] pm by simp
  then have need: "(if 0 < w then 2 else 1) \<le> length ol'" by (simp add: inputs_def)
  have "generate_t3_token m ol i ids w T h = Inr (tok, ol', ids[i := tok], h2)"
    using l0 sm pm idx
    by (cases "0 < w") (simp_all add: generate_t3_token_def Let_def emb_def inputs_def)
  with need show ?thesis by blast
qed

lemma decode_iteration_total:
  assumes rows: "\<And>h e. length (fst (patched_model m h e)) = length e"
    and ol: "(if 0 < cfg_weight req then 2 else 1) \<le> length (output_logits s)"
    and st: "1 \<le> st" "st \<le> 20"
    and idx: "nat (i * st + 1) < length (generated_ids s)"
  shows "\<exists>b s'. decode_iteration m req sl st i s = Inr (b, s')
           \<and> (if 0 < cfg_weight req then 2 else 1) \<le> length (output_logits s')"
proof -
  from st have d: "20 div st \<noteq> 0"
    using pos_imp_zdiv_pos_iff [of st 20] by simp
  from generate_t3_token_total [OF rows ol idx] obtain tok ol' ids' h' where
    g: "generate_t3_token m (output_logits s) (nat (i * st + 1)) (generated_ids s)
          (cfg_weight req) (temperature req) (hidden s) = Inr (tok, ol', ids', h')"
    and need: "(if 0 < cfg_weight req then 2 else 1) \<le> length ol'"
    by blast
  show ?thesis
  proof (cases "length_guesstimate req < i * st \<and> i mod (20 div st) = 0
                 \<and> stop_speech_token (hp m) \<in> set (generated_ids s)")
    case True
    then have "decode_iteration m req sl st i s = Inr (True, s)"
      using d by (simp add: decode_iteration_def)
    with ol show ?thesis by blast
  next
    case False
    then have "\<exists>log. decode_iteration m req sl st i s =
        Inr (False, \<lparr>generated_ids = ids', output_logits = ol', hidden = h', wrapper_log = log\<rparr>)"
      using d g by (auto simp: decode_iteration_def cudagraph_wrapper_call_def Let_def)
    with need show ?thesis by auto
  qed
qed

lemma decode_loop_total:
  assumes rows: "\<And>h e. length (fst (patched_model m h e)) = length e"
    and st: "1 \<le> st" "st \<le> 20"
  shows "(if 0 < cfg_weight req then 2 else 1) \<le> length (output_logits s) \<Longrightarrow>
         0 \<le> i \<Longrightarrow>
         n = 0 \<or> (i + int n - 1) * st + 1 < int (length (generated_ids s)) \<Longrightarrow>
           \<exists>s'. decode_loop m req sl st n i s = Inr s'"
proof (induction n arbitrary: i s)
  case 0
  then show ?case by simp
next
  case (Suc n)
  from Suc.prems(3) have bound: "(i + int n) * st + 1 < int (length (generated_ids s))"
    by simp
  have "i * st \<le> (i + int n) * st" using st(1) by (simp add: mult_right_mono)
  with bound have lt: "i * st + 1 < int (length (generated_ids s))" by linarith
  have "0 \<le> i * st" using Suc.prems(2) st(1) by simp
  then have "0 \<le> i * st + 1" by linarith
  with lt have idx: "nat (i * st + 1) < length (generated_ids s)"
    by (simp only: nat_less_iff)
  from decode_iteration_total [OF rows Suc.prems(1) st idx, of sl] obtain b s1 where
    it: "decode_iteration m req sl st i s = Inr (b, s1)"
    and ol1: "(if 0 < cfg_weight req then 2 else 1) \<le> length (output_logits s1)"
    by blast
  show ?case
  proof (cases b)
    case True
    with it show ?thesis by simp
  next
    case False
    have len: "length (generated_ids s1) = length (generated_ids s)"
      using decode_iteration_length [OF it] .
    have "n = 0 \<or> (i + 1 + int n - 1) * st + 1 < int (length (generated_ids s1))"
      using bound len by simp
    from Suc.IH [OF ol1 _ this] Suc.prems(2) obtain s' where
      "decode_loop m req sl st n (i + 1) s1 = Inr s'" by auto
    with it False show ?thesis by simp
  qed
qed


lemma output_logits_loop_start:
  "output_logits (loop_start m req h0) = fst (initial_forward_pass m h0 (nat (prompt_len req)))"
  by (simp add: loop_start_def split: prod.splits)

lemma last_iteration_in_budget:
  assumes "0 \<le> (mn::int)" and "1 \<le> st" and "int k \<le> mn div st" and "0 < k"
  shows "(int k - 1) * st + 1 \<le> mn"
proof -
  have "int k * st \<le> (mn div st) * st" using assms(2,3) by (simp add: mult_right_mono)
  also have "\<dots> \<le> mn"
    using div_mult_mod_eq [of mn st] pos_mod_sign [of st mn] assms(2) by linarith
  finally have "int k * st \<le> mn" .
  moreover have "(int k - 1) * st + 1 = int k * st - st + 1" by (simp add: algebra_simps)
  ultimately show ?thesis using assms(2) by linarith
qed

lemma inference_run_total:
  assumes rows: "\<And>h e. length (fst (patched_model m h e)) = length e"
    and init: "(if 0 < cfg_weight req then 2 else 1)
                 \<le> length (fst (initial_forward_pass m h0 (nat (prompt_len req))))"
    and st: "1 \<le> effective_stride req" "effective_stride req \<le> 20"
    and mn: "0 \<le> clamp_max_new_tokens (hp m) req"
            "clamp_max_new_tokens (hp m) req < int (TOKEN_LIMIT m)"
  shows "\<exists>c s. inference_run m req kv h0 = Inr (clamp_max_new_tokens (hp m) req, c, s)"
proof -
  let ?mn = "clamp_max_new_tokens (hp m) req"
  let ?st = "effective_stride req"
  let ?n = "nat (?mn div ?st)"
  let ?s0 = "loop_start m req h0"
  have len: "length (generated_ids ?s0) = bos_len + TOKEN_LIMIT m"
    by (simp add: generated_ids_loop_start initial_generated_ids_facts)
  have bound: "?n = 0 \<or> (0 + int ?n - 1) * ?st + 1 < int (length (generated_ids ?s0))"
  proof (cases "?n = 0")
    case True
    then show ?thesis by simp
  next
    case False
    then have "int ?n \<le> ?mn div ?st" "0 < ?n" by simp_all
    from last_iteration_in_budget [OF mn(1) st(1) this] have "(int ?n - 1) * ?st + 1 \<le> ?mn" .
    with mn(2) len show ?thesis by (simp add: bos_len_def)
  qed
  have ol: "(if 0 < cfg_weight req then 2 else 1) \<le> length (output_logits ?s0)"
    using init by (simp add: output_logits_loop_start)
  from decode_loop_total [OF rows st ol _ bound, of "prompt_len req"] obtain s where
    "decode_loop m req (prompt_len req) ?st ?n 0 ?s0 = Inr s" by auto
  then show ?thesis
    using mn st(1) by (simp add: inference_run_def Let_def)
qed

lemma stop_within_written:
  assumes "pad_beyond pad j ids" and "K < length ids" and "ids ! K \<noteq> pad"
  shows "K \<le> j"
  using assms by (auto simp: pad_beyond_iff not_le [symmetric])

lemma highest_written_in_budget:
  assumes "0 \<le> (mn::int)" and "k \<le> nat (mn div st)"
  shows "highest_written st k \<le> nat mn"
proof (cases "k = 0")
  case True
  then show ?thesis by (simp add: highest_written_def bos_len_def)
next
  case False
  with iterations_need_stride [OF assms] have st: "1 \<le> st" by simp
  from False assms(2) have "int k \<le> mn div st" "0 < k" by simp_all
  from last_iteration_in_budget [OF assms(1) st this] have "(int k - 1) * st + 1 \<le> mn" .
  with False show ?thesis by (simp add: highest_written_def nat_mono)
qed

lemma inference_run_final_state:
  assumes "inference_run m req kv h0 = Inr (mn, c, s)"
  shows "\<exists>k. k \<le> nat (mn div effective_stride req)
           \<and> iteration_state m req (prompt_len req) (effective_stride req)
                (loop_start m req h0) k = Some s"
proof -
  have "decode_loop m req (prompt_len req) (effective_stride req)
          (nat (mn div effective_stride req)) (int 0) (loop_start m req h0) = Inr s"
    using inference_run_InrD(6) [OF assms] by simp
  from decode_loop_reaches [OF this, of "loop_start m req h0"] show ?thesis by auto
qed

lemma inference_optimized_length_le:
  assumes "inference_optimized m req kv h0 = Inr out"
  shows "length out \<le> bos_len + nat (clamp_max_new_tokens (hp m) req)"
proof -
  from inference_optimized_InrD [OF assms] obtain mn c s where
    run: "inference_run m req kv h0 = Inr (mn, c, s)"
    and out: "out = select_tokens (stop_speech_token (hp m)) mn (generated_ids s)"
    by blast
  let ?ids = "generated_ids s"
  let ?stop = "stop_speech_token (hp m)"
  note d = inference_run_InrD [OF run]
  show ?thesis
  proof (cases "?stop \<in> set ?ids")
    case False
    then show ?thesis
      using out select_tokens_no_stop [OF False d(2)] d(1) by simp
  next
    case True
    let ?K = "length (takeWhile (\<lambda>y. y \<noteq> ?stop) ?ids)"
    note f = first_stop_facts [OF True]
    from inference_run_final_state [OF run] obtain k where
      k: "k \<le> nat (mn div effective_stride req)"
      and st: "iteration_state m req (prompt_len req) (effective_stride req)
                 (loop_start m req h0) k = Some s"
      by blast
    from iteration_state_invariant [OF st iterations_need_stride [OF d(2) k]
           generated_ids_loop_start]
    have pad: "pad_beyond (PAD_TOKEN_ID (hp m)) (highest_written (effective_stride req) k) ?ids"
      by blast
    have "?ids ! ?K \<noteq> PAD_TOKEN_ID (hp m)" using f(2) by (simp add: PAD_TOKEN_ID_def)
    from stop_within_written [OF pad f(1) this] highest_written_in_budget [OF d(2) k]
    have "?K \<le> nat mn" by linarith
    moreover have "out = take (?K + 1) ?ids" using out select_tokens_stop [OF True] by simp
    ultimately show ?thesis using d(1) by (simp add: bos_len_def)
  qed
qed

lemma decode_iteration_no_wrapper:
  "decode_iteration m req sl st i s = Inr (b, s') \<Longrightarrow>
   generate_token_backend req \<noteq> ''cudagraphs-manual'' \<Longrightarrow>
     wrapper_log s' = wrapper_log s"
  by (cases b) (auto dest: decode_iteration_break decode_iteration_step)

lemma decode_loop_no_wrapper:
  "decode_loop m req sl st n i s = Inr s' \<Longrightarrow>
   generate_token_backend req \<noteq> ''cudagraphs-manual'' \<Longrightarrow>
     wrapper_log s' = wrapper_log s"
proof (induction n arbitrary: i s)
  case 0
  then show ?case by simp
next
  case (Suc n)
  then show ?case
    by (auto split: sum.splits prod.splits bool.splits dest: decode_iteration_no_wrapper)
qed


lemma decode_loop_reaches_all_or_stop:
  "decode_loop m req sl st n (int j) sj = Inr s' \<Longrightarrow>
   iteration_state m req sl st s0 j = Some sj \<Longrightarrow>
     \<exists>k. j \<le> k \<and> k \<le> j + n \<and> iteration_state m req sl st s0 k = Some s'
       \<and> (k < j + n \<longrightarrow> stop_speech_token (hp m) \<in> set (generated_ids s'))"
proof (induction n arbitrary: j sj)
  case 0
  then show ?case by auto
next
  case (Suc n)
  show ?case
  proof (cases "decode_iteration m req sl st (int j) sj")
    case (Inl e)
    with Suc.prems show ?thesis by simp
  next
    case (Inr r)
    obtain b s1 where r: "r = (b, s1)" by (cases r)
    show ?thesis
    proof (cases b)
      case True
      with Suc.prems Inr r have "s' = s1" by simp
      moreover from True Inr r have "s1 = sj"
        and "stop_speech_token (hp m) \<in> set (generated_ids sj)"
        by (auto dest: decode_iteration_break)
      ultimately show ?thesis using Suc.prems(2) by auto
    next
      case False
      with Suc.prems Inr r have run: "decode_loop m req sl st n (int (Suc j)) s1 = Inr s'"
        by (simp add: add.commute)
      from False Inr r Suc.prems(2) have "iteration_state m req sl st s0 (Suc j) = Some s1"
        by simp
      from Suc.IH [OF run this] obtain k where
        "Suc j \<le> k" "k \<le> Suc j + n" "iteration_state m req sl st s0 k = Some s'"
        "k < Suc j + n \<longrightarrow> stop_speech_token (hp m) \<in> set (generated_ids s')"
        by blast
      then have "j \<le> k \<and> k \<le> j + Suc n \<and> iteration_state m req sl st s0 k = Some s'
         \<and> (k < j + Suc n \<longrightarrow> stop_speech_token (hp m) \<in> set (generated_ids s'))"
        by auto
      then show ?thesis by blast
    qed
  qed
qed

lemma returned_positions_written:
  assumes run: "inference_run m req kv h0 = Inr (mn, c, s)"
    and st1: "effective_stride req = 1"
  shows "\<exists>k. iteration_state m req (prompt_len req) 1 (loop_start m req h0) k = Some s
           \<and> length (select_tokens (stop_speech_token (hp m)) mn (generated_ids s))
               \<le> Suc (highest_written 1 k)"
proof -
  let ?ids = "generated_ids s"
  let ?stop = "stop_speech_token (hp m)"
  note d = inference_run_InrD [OF run]
  have "decode_loop m req (prompt_len req) 1 (nat mn) (int 0) (loop_start m req h0) = Inr s"
    using d(6) st1 by simp
  from decode_loop_reaches_all_or_stop [OF this, of "loop_start m req h0"] obtain k where
    k: "k \<le> nat mn"
    and it: "iteration_state m req (prompt_len req) 1 (loop_start m req h0) k = Some s"
    and early: "k < nat mn \<longrightarrow> ?stop \<in> set ?ids"
    by auto
  have hw: "highest_written 1 k = k" by (simp add: highest_written_def bos_len_def)
  have "length (select_tokens ?stop mn ?ids) \<le> Suc (highest_written 1 k)"
  proof (cases "?stop \<in> set ?ids")
    case False
    with early k have "k = nat mn" by simp
    with select_tokens_no_stop [OF False d(2)] hw show ?thesis by (simp add: bos_len_def)
  next
    case True
    note f = first_stop_facts [OF True]
    from iteration_state_invariant [OF it _ generated_ids_loop_start]
    have pad: "pad_beyond (PAD_TOKEN_ID (hp m)) (highest_written 1 k) ?ids" by simp
    have "?ids ! length (takeWhile (\<lambda>y. y \<noteq> ?stop) ?ids) \<noteq> PAD_TOKEN_ID (hp m)"
      using f(2) by (simp add: PAD_TOKEN_ID_def)
    from stop_within_written [OF pad f(1) this] select_tokens_stop [OF True, of mn]
    show ?thesis by simp
  qed
  with it show ?thesis by blast
qed

section \<open>Helper facts on the direct-inference loop\<close>

lemma generate_fast_loop_appends:
  "generate_fast_loop d T a b w n i toks h = Inr out \<Longrightarrow>
     \<exists>new. out = toks @ new \<and> stop_speech_token (di_hp d) \<notin> set new \<and> length new \<le> n"
proof (induction n arbitrary: i toks h)
  case 0
  then show ?case by simp
next
  case (Suc n)
  from Suc.prems obtain l0 where
    l0: "generate_fast_cfg w (di_speech_head d h) = Inr l0"
    by (auto split: sum.splits)
  obtain tok h1 where
    sm: "di_sample d h (generate_fast_logits (di_repetition_penalty_processor d)
           (di_min_p_warper d) (di_top_p_warper d) T a b toks l0) = (tok, h1)"
    by force
  show ?case
  proof (cases "tok = stop_speech_token (di_hp d)")
    case True
    with Suc.prems l0 sm have "out = toks" by simp
    then show ?thesis by simp
  next
    case False
    with Suc.prems l0 sm obtain h2 where
      "generate_fast_loop d T a b w n (i + 1) (toks @ [tok]) h2 = Inr out"
      by (auto simp: Let_def split: sum.splits option.splits if_splits)
    from Suc.IH [OF this] obtain new where
      "out = (toks @ [tok]) @ new" "stop_speech_token (di_hp d) \<notin> set new" "length new \<le> n"
      by blast
    with False have "out = toks @ (tok # new)"
      "stop_speech_token (di_hp d) \<notin> set (tok # new)" "length (tok # new) \<le> Suc n"
      by auto
    then show ?thesis by blast
  qed
qed


lemma generate_fast_loop_step:
  assumes "generate_fast_loop d T a b w (Suc n) i toks h = Inr out"
  shows "\<exists>l0. generate_fast_cfg w (di_speech_head d h) = Inr l0
     \<and> (if fst (di_sample d h (generate_fast_logits (di_repetition_penalty_processor d)
                (di_min_p_warper d) (di_top_p_warper d) T a b toks l0))
             = stop_speech_token (di_hp d)
         then out = toks
         else \<exists>new. out = toks @ fst (di_sample d h (generate_fast_logits
                (di_repetition_penalty_processor d) (di_min_p_warper d) (di_top_p_warper d)
                T a b toks l0)) # new)"
proof -
  from assms obtain l0 where
    l0: "generate_fast_cfg w (di_speech_head d h) = Inr l0"
    by (auto split: sum.splits)
  obtain tok h1 where
    sm: "di_sample d h (generate_fast_logits (di_repetition_penalty_processor d)
           (di_min_p_warper d) (di_top_p_warper d) T a b toks l0) = (tok, h1)"
    by force
  show ?thesis
  proof (cases "tok = stop_speech_token (di_hp d)")
    case True
    with assms l0 sm have "out = toks" by simp
    with True l0 sm show ?thesis by simp
  next
    case False
    with assms l0 sm obtain h2 where
      "generate_fast_loop d T a b w n (i + 1) (toks @ [tok]) h2 = Inr out"
      by (auto simp: Let_def split: sum.splits option.splits if_splits)
    from generate_fast_loop_appends [OF this] obtain new where
      "out = (toks @ [tok]) @ new" by blast
    then have "out = toks @ tok # new" by simp
    with False l0 sm show ?thesis by auto
  qed
qed

section \<open>Helper facts on the cache builders\<close>

lemma pos_cache_covering_unchanged:
  "max_gen_tokens \<le> length (entries c) \<Longrightarrow> dtype_of c = d \<Longrightarrow>
     get_speech_pos_embedding_cache convert emb emb_dtype (Some c) max_gen_tokens d = c"
  by (simp add: get_speech_pos_embedding_cache_def)

lemma speech_cache_covering_unchanged:
  "vocab_size \<le> length (entries c) \<Longrightarrow> dtype_of c = d \<Longrightarrow>
     init_speech_embedding_cache convert weight (Some c) vocab_size d = c"
  by (simp add: init_speech_embedding_cache_def)

lemma pos_cache_rebuilt_in_full:
  "length (entries c) < max_gen_tokens \<Longrightarrow>
     entries (get_speech_pos_embedding_cache convert emb emb_dtype (Some c) max_gen_tokens d)
       = map emb [0..<max_gen_tokens]"
  by (simp add: get_speech_pos_embedding_cache_def)

lemma speech_cache_rebuilt_dtype:
  "length (entries c) < vocab_size \<Longrightarrow>
     dtype_of (init_speech_embedding_cache convert weight (Some c) vocab_size d) = d
     \<and> length (entries (init_speech_embedding_cache convert weight (Some c) vocab_size d))
         = length (entries weight)"
  by (simp add: init_speech_embedding_cache_def to_dtype_def)

lemma pos_cache_second_call:
  assumes "emb_dtype \<noteq> d"
  shows "dtype_of (get_speech_pos_embedding_cache convert emb emb_dtype None n d) = emb_dtype
   \<and> get_speech_pos_embedding_cache convert emb emb_dtype
        (Some (get_speech_pos_embedding_cache convert emb emb_dtype None n d)) n d
        = to_dtype convert d (get_speech_pos_embedding_cache convert emb emb_dtype None n d)
   \<and> get_speech_pos_embedding_cache convert emb emb_dtype
        (Some (get_speech_pos_embedding_cache convert emb emb_dtype None n d)) n d
        \<noteq> get_speech_pos_embedding_cache convert emb emb_dtype None n d"
proof -
  let ?first = "get_speech_pos_embedding_cache convert emb emb_dtype None n d"
  have f: "?first = \<lparr>entries = map emb [0..<n], dtype_of = emb_dtype\<rparr>"
    by (simp add: get_speech_pos_embedding_cache_def)
  have d: "dtype_of ?first = emb_dtype" by (simp only: f) simp
  have l: "length (entries ?first) = n" by (simp only: f) simp
  have s: "get_speech_pos_embedding_cache convert emb emb_dtype (Some ?first) n d
             = to_dtype convert d ?first"
    using d l assms by (simp add: get_speech_pos_embedding_cache_def Let_def)
  have "dtype_of (to_dtype convert d ?first) = d"
    by (simp add: to_dtype_def)
  with d assms have "to_dtype convert d ?first \<noteq> ?first" by auto
  with d s show ?thesis by simp
qed

section \<open>Runs of the test doubles\<close>

lemmas run_defs = inference_run_def loop_start_def
     clamp_max_new_tokens_def requested_new_tokens_def prompt_len_def effective_stride_def
     setup_kv_cache_def StaticCache_def reset_def
     decode_iteration_def cudagraph_wrapper_call_def generate_t3_token_def
     t3_cfg_logits_def t3_process_logits_def repetition_penalty_def keep_all_def temperature_scale_one
     cfg_combine_def
     scripted_t3_def small_request_def guided_request_def large_request_def released_hp_def toy_hp_def


lemma toy_run:
  "inference_run (scripted_t3 toy_hp 8) small_request None [2, 1] =
     Inr (2, \<lparr>sc_batch_size = 1, sc_max_cache_len = 32\<rparr>,
          \<lparr>generated_ids = [0, 2, 1, 2, 2, 2, 2, 2, 2], output_logits = [[1, 0, 2]],
           hidden = [], wrapper_log = [Guard, Call 8, Call 8]\<rparr>)"
  by (simp add: run_defs initial_generated_ids_def bos_len_def PAD_TOKEN_ID_def numeral_eq_Suc Let_def)


lemma toy_fields:
  "hp (scripted_t3 h n) = h" "TOKEN_LIMIT (scripted_t3 h n) = n"
  "repetition_penalty_processor (scripted_t3 h n) = Some (repetition_penalty (6 / 5))"
  by (simp_all add: scripted_t3_def)

lemma large_run_asserts:
  "inference_optimized (scripted_t3 released_hp 1500) large_request None [5, 7, 9]
     = Inl AssertionError"
  by (simp add: inference_optimized_def run_defs Let_def)

lemma released_run:
  "inference_run (scripted_t3 released_hp 1500) small_request None [5, 7, 9] =
     Inr (2, \<lparr>sc_batch_size = 1, sc_max_cache_len = 32\<rparr>,
          \<lparr>generated_ids = (initial_generated_ids released_hp 1500)[1 := 5, 2 := 7],
           output_logits = [[1, 0, 2]],
           hidden = [9], wrapper_log = [Guard, Call 250, Call 250]\<rparr>)"
  by (simp add: run_defs initial_generated_ids_facts(1) numeral_2_eq_2 Let_def)

lemma set_initial_generated_ids:
  "set (initial_generated_ids h n) \<subseteq> {start_speech_token h, PAD_TOKEN_ID h}"
  by (cases n) (auto simp: initial_generated_ids_def bos_len_def)

lemma in_set_updateD: "x \<in> set (xs[i := v]) \<Longrightarrow> x = v \<or> x \<in> set xs"
  using set_update_subset_insert [of xs i v] by blast

lemma released_no_stop:
  "6562 \<notin> set ((initial_generated_ids released_hp 1500)[1 := 5, 2 := 7])"
proof
  assume "6562 \<in> set ((initial_generated_ids released_hp 1500)[1 := 5, 2 := 7])"
  then have "(6562::token) \<in> set (initial_generated_ids released_hp 1500)"
    by (auto dest!: in_set_updateD)
  with set_initial_generated_ids [of released_hp 1500] show False
    by (auto simp: released_hp_def PAD_TOKEN_ID_def)
qed

lemma released_result_length:
  "map_sum id length
     (inference_optimized (scripted_t3 released_hp 1500) small_request None [5, 7, 9]) = Inr 3"
  using select_tokens_no_stop [OF released_no_stop, of 2]
  by (simp only: inference_optimized_def released_run)
     (simp add: toy_fields released_hp_def bos_len_def initial_generated_ids_facts(1))

lemma released_guided_run:
  "inference_run (scripted_t3 released_hp 1500) guided_request
       (Some \<lparr>sc_batch_size = 1, sc_max_cache_len = 32\<rparr>) [5, 7, 9] =
     Inr (1, \<lparr>sc_batch_size = 1, sc_max_cache_len = 32\<rparr>,
          \<lparr>generated_ids = (initial_generated_ids released_hp 1500)[1 := 5],
           output_logits = [[1, 0, 2], [1, 0, 2]],
           hidden = [7, 9], wrapper_log = [Guard, Call 250]\<rparr>)"
  by (simp add: run_defs initial_generated_ids_facts(1) Let_def)


lemma greedy_fields:
  "repetition_penalty_processor (greedy_t3 h n) = Some (repetition_penalty 2)"
  "min_p_warper (greedy_t3 h n) = Some keep_all"
  "top_p_warper (greedy_t3 h n) = Some keep_all"
  "sample (greedy_t3 h n) = (\<lambda>u l. (greedy l, u))"
  "hp (greedy_t3 h n) = h" "TOKEN_LIMIT (greedy_t3 h n) = n"
  by (simp_all add: greedy_t3_def)

lemma greedy_step:
  "generate_t3_token (greedy_t3 toy_hp 8) [[3, 2, 0]] 1 [0, 2, 2, 2, 2, 2, 2, 2, 2] 0 2 () =
     Inr (1, [[1, 3 / 2, 2]], [0, 1, 2, 2, 2, 2, 2, 2, 2], ())"
  by (simp add: generate_t3_token_def t3_cfg_logits_def t3_process_logits_def greedy_t3_def
        repetition_penalty_def keep_all_def temperature_scale_def greedy_def Let_def)

lemma greedy_guided_step:
  "generate_t3_token (greedy_t3 toy_hp 8) [[1, 2, 0], [0, 4, 0]] 1
       [0, 2, 2, 2, 2, 2, 2, 2, 2] 1 1 () =
     Inr (0, [[1, 3 / 2, 2], [1, 3 / 2, 2]], [0, 0, 2, 2, 2, 2, 2, 2, 2], ())"
  by (simp add: generate_t3_token_def t3_cfg_logits_def t3_process_logits_def greedy_t3_def
        repetition_penalty_def keep_all_def cfg_combine_def greedy_def Let_def)

lemma greedy_plain_step:
  "generate_t3_token (greedy_t3 toy_hp 8) [[1, 2, 0], [0, 4, 0]] 1
       [0, 2, 2, 2, 2, 2, 2, 2, 2] 0 1 () =
     Inr (1, [[1, 3 / 2, 2]], [0, 1, 2, 2, 2, 2, 2, 2, 2], ())"
  by (simp add: generate_t3_token_def t3_cfg_logits_def t3_process_logits_def greedy_t3_def
        repetition_penalty_def keep_all_def cfg_combine_def greedy_def Let_def)

lemma greedy_direct_step:
  "generate_fast_loop greedy_direct 2 (1 / 20) 1 0 (Suc 0) 0 [0] () = Inr [0, 0]"
  by (simp add: greedy_direct_def toy_hp_def generate_fast_cfg_def generate_fast_logits_def
        repetition_penalty_def keep_all_def temperature_scale_def greedy_def Let_def)

lemma greedy_loop_start:
  "loop_start (greedy_t3 toy_hp 8) small_request () =
     \<lparr>generated_ids = [0, 2, 2, 2, 2, 2, 2, 2, 2], output_logits = [[1, 3 / 2, 2], [0, 0, 1]],
      hidden = (), wrapper_log = [Guard]\<rparr>"
  by (simp add: loop_start_def greedy_t3_def toy_hp_def initial_generated_ids_def bos_len_def
        PAD_TOKEN_ID_def numeral_eq_Suc)

lemma greedy_iteration_0:
  "decode_iteration (greedy_t3 toy_hp 8) small_request (prompt_len small_request)
      (effective_stride small_request) (int 0)
      \<lparr>generated_ids = [0, 2, 2, 2, 2, 2, 2, 2, 2], output_logits = [[1, 3 / 2, 2], [0, 0, 1]],
       hidden = (), wrapper_log = [Guard]\<rparr> =
     Inr (False, \<lparr>generated_ids = [0, 1, 2, 2, 2, 2, 2, 2, 2], output_logits = [[1, 3 / 2, 2]],
           hidden = (), wrapper_log = [Guard, Call 8]\<rparr>)"
  by (simp add: decode_iteration_def cudagraph_wrapper_call_def generate_t3_token_def
        t3_cfg_logits_def t3_process_logits_def repetition_penalty_def keep_all_def
        prompt_len_def effective_stride_def small_request_def greedy_t3_def toy_hp_def
        greedy_def Let_def)

lemma greedy_budget:
  "0 \<le> clamp_max_new_tokens (hp (greedy_t3 toy_hp 8)) small_request"
  "0 \<le> nat (clamp_max_new_tokens (hp (greedy_t3 toy_hp 8)) small_request
             div effective_stride small_request)"
  by (simp_all add: greedy_fields clamp_max_new_tokens_def requested_new_tokens_def prompt_len_def
        small_request_def toy_hp_def)

lemma short_iteration_1:
  "iteration_state (scripted_t3 released_hp 8) small_request (prompt_len small_request)
      (effective_stride small_request)
      (loop_start (scripted_t3 released_hp 8) small_request [5, 7, 9]) 1 =
     Some \<lparr>generated_ids = [6561, 5, 6563, 6563, 6563, 6563, 6563, 6563, 6563],
           output_logits = [[1, 0, 2]], hidden = [7, 9], wrapper_log = [Guard, Call 8]\<rparr>"
  by (simp add: run_defs initial_generated_ids_def bos_len_def PAD_TOKEN_ID_def numeral_eq_Suc Let_def)

lemma short_step_1:
  "decode_iteration (scripted_t3 released_hp 8) small_request (prompt_len small_request)
      (effective_stride small_request) (int 1)
      \<lparr>generated_ids = [6561, 5, 6563, 6563, 6563, 6563, 6563, 6563, 6563],
           output_logits = [[1, 0, 2]], hidden = [7, 9], wrapper_log = [Guard, Call 8]\<rparr> =
     Inr (False, \<lparr>generated_ids = [6561, 5, 7, 6563, 6563, 6563, 6563, 6563, 6563],
           output_logits = [[1, 0, 2]], hidden = [9], wrapper_log = [Guard, Call 8, Call 8]\<rparr>)"
  by (simp add: run_defs initial_generated_ids_def bos_len_def PAD_TOKEN_ID_def numeral_eq_Suc Let_def)

lemma short_budget:
  "0 \<le> clamp_max_new_tokens (hp (scripted_t3 released_hp 8)) small_request"
  "1 \<le> nat (clamp_max_new_tokens (hp (scripted_t3 released_hp 8)) small_request
             div effective_stride small_request)"
  by (simp_all add: run_defs)

lemmas short_run_defs = inference_optimized_def inference_run_def loop_start_def
     clamp_max_new_tokens_def requested_new_tokens_def prompt_len_def effective_stride_def
     setup_kv_cache_def StaticCache_def reset_def
     decode_iteration_def cudagraph_wrapper_call_def generate_t3_token_def
     t3_cfg_logits_def t3_process_logits_def repetition_penalty_def keep_all_def
     scripted_t3_def released_hp_def
     initial_generated_ids_def bos_len_def PAD_TOKEN_ID_def numeral_eq_Suc Let_def
     select_tokens_def py_slice_to_def

lemma strided_pad_result:
  "inference_optimized (scripted_t3 released_hp 8) strided_request None [5, 7]
     = Inr [6561, 5, 6563, 7, 6563]"
  by (simp add: short_run_defs strided_request_def)

lemma sampled_pad_result:
  "inference_optimized (scripted_t3 released_hp 8) small_request None [6563, 9]
     = Inr [6561, 6563, 9]"
  by (simp add: short_run_defs small_request_def)

section \<open>Claims on the step function\<close>

text \<open>
  C1 (as amended). The token that a call of the step function returns is sampled from
  the guided logits after the processors have run on them in the order of the
  specification: repetition penalty, temperature scaling, min-p filtering, top-p
  filtering, each processor handed the whole buffer (a processor that is
  \<^verbatim>\<open>None\<close> is skipped, and so is the division at temperature 1). In an iteration of
  the direct-inference loop the token is sampled from the guided logits after other
  stages: temperature scaling first, then the repetition penalty, and only once a
  token has been sampled (the history then is BOS and the sampled tokens), then the
  min-p filter when the caller's \<open>min_p\<close> is positive, then the top-p filter when the
  caller's \<open>top_p\<close> is below 1; both filters are handed no history. That token ends
  the loop when it is the stop token, and is appended to the list otherwise. (For the
  penalty of the specification the order of the first two stages does not change the
  values, lemma \<open>repetition_penalty_temperature_commute\<close>; the gates do.)
\<close>

theorem C1_pipeline_order:
  "(generate_t3_token m ol i ids w T h = Inr (tok, ol', ids', h') \<longrightarrow>
      (\<exists>l0. t3_cfg_logits w ol = Inr l0
         \<and> tok = fst (sample m h
             ((case top_p_warper m of None \<Rightarrow> id | Some tp \<Rightarrow> tp (Some ids))
               ((case min_p_warper m of None \<Rightarrow> id | Some mp \<Rightarrow> mp (Some ids))
                 ((if T \<noteq> 1 then temperature_scale T else id)
                   ((case repetition_penalty_processor m of None \<Rightarrow> id | Some rp \<Rightarrow> rp ids)
                      l0)))))
         \<and> (\<forall>rp mp tp. repetition_penalty_processor m = Some rp \<and> min_p_warper m = Some mp
                \<and> top_p_warper m = Some tp \<longrightarrow>
              tok = fst (sample m h
                      (spec_pipeline rp T (with_history mp) (with_history tp) ids l0)))))
   \<and> (generate_fast_loop d T min_p top_p w (Suc n) j toks hs = Inr out \<longrightarrow>
        (\<exists>l0 next_token.
            generate_fast_cfg w (di_speech_head d hs) = Inr l0
          \<and> next_token = fst (di_sample d hs
               ((if top_p < 1 then di_top_p_warper d None else id)
                 ((if 0 < min_p then di_min_p_warper d None else id)
                   ((if 1 < length toks then di_repetition_penalty_processor d toks else id)
                     ((if T \<noteq> 1 then temperature_scale T else id) l0)))))
          \<and> (if next_token = stop_speech_token (di_hp d) then out = toks
              else \<exists>new. out = toks @ next_token # new)))"
proof -
  have step: "\<exists>l0. t3_cfg_logits w ol = Inr l0
         \<and> tok = fst (sample m h
             ((case top_p_warper m of None \<Rightarrow> id | Some tp \<Rightarrow> tp (Some ids))
               ((case min_p_warper m of None \<Rightarrow> id | Some mp \<Rightarrow> mp (Some ids))
                 ((if T \<noteq> 1 then temperature_scale T else id)
                   ((case repetition_penalty_processor m of None \<Rightarrow> id | Some rp \<Rightarrow> rp ids)
                      l0)))))
         \<and> (\<forall>rp mp tp. repetition_penalty_processor m = Some rp \<and> min_p_warper m = Some mp
                \<and> top_p_warper m = Some tp \<longrightarrow>
              tok = fst (sample m h
                      (spec_pipeline rp T (with_history mp) (with_history tp) ids l0)))"
    if g: "generate_t3_token m ol i ids w T h = Inr (tok, ol', ids', h')"
  proof -
    from generate_t3_token_InrD(3) [OF g] obtain l0 where
      l0: "t3_cfg_logits w ol = Inr l0"
      and tok: "tok = fst (sample m h (t3_process_logits (repetition_penalty_processor m) T
                   (min_p_warper m) (top_p_warper m) ids l0))"
      by blast
    have a: "t3_process_logits (repetition_penalty_processor m) T
                   (min_p_warper m) (top_p_warper m) ids l0 =
             (case top_p_warper m of None \<Rightarrow> id | Some tp \<Rightarrow> tp (Some ids))
               ((case min_p_warper m of None \<Rightarrow> id | Some mp \<Rightarrow> mp (Some ids))
                 ((if T \<noteq> 1 then temperature_scale T else id)
                   ((case repetition_penalty_processor m of None \<Rightarrow> id | Some rp \<Rightarrow> rp ids)
                      l0)))"
      by (simp add: t3_process_logits_def Let_def split: option.splits)
    have b: "t3_process_logits (repetition_penalty_processor m) T
                   (min_p_warper m) (top_p_warper m) ids l0 =
             spec_pipeline rp T (with_history mp) (with_history tp) ids l0"
      if "repetition_penalty_processor m = Some rp \<and> min_p_warper m = Some mp
                \<and> top_p_warper m = Some tp" for rp mp tp
      using that
      by (simp add: t3_process_logits_def spec_pipeline_def with_history_def
            temperature_scale_one Let_def)
    from l0 tok a b show ?thesis by metis
  qed
  have direct: "\<exists>l0 next_token.
            generate_fast_cfg w (di_speech_head d hs) = Inr l0
          \<and> next_token = fst (di_sample d hs
               ((if top_p < 1 then di_top_p_warper d None else id)
                 ((if 0 < min_p then di_min_p_warper d None else id)
                   ((if 1 < length toks then di_repetition_penalty_processor d toks else id)
                     ((if T \<noteq> 1 then temperature_scale T else id) l0)))))
          \<and> (if next_token = stop_speech_token (di_hp d) then out = toks
              else \<exists>new. out = toks @ next_token # new)"
    if g: "generate_fast_loop d T min_p top_p w (Suc n) j toks hs = Inr out"
  proof -
    from generate_fast_loop_step [OF g] obtain l0 where
      l0: "generate_fast_cfg w (di_speech_head d hs) = Inr l0"
      and r: "if fst (di_sample d hs (generate_fast_logits (di_repetition_penalty_processor d)
                (di_min_p_warper d) (di_top_p_warper d) T min_p top_p toks l0))
             = stop_speech_token (di_hp d)
         then out = toks
         else \<exists>new. out = toks @ fst (di_sample d hs (generate_fast_logits
                (di_repetition_penalty_processor d) (di_min_p_warper d) (di_top_p_warper d)
                T min_p top_p toks l0)) # new"
      by blast
    have a: "generate_fast_logits (di_repetition_penalty_processor d)
                (di_min_p_warper d) (di_top_p_warper d) T min_p top_p toks l0 =
             (if top_p < 1 then di_top_p_warper d None else id)
                 ((if 0 < min_p then di_min_p_warper d None else id)
                   ((if 1 < length toks then di_repetition_penalty_processor d toks else id)
                     ((if T \<noteq> 1 then temperature_scale T else id) l0)))"
      by (simp add: generate_fast_logits_def Let_def)
    from l0 r show ?thesis unfolding a by blast
  qed
  from step direct show ?thesis by blast
qed

text \<open>
  With the sampler that draws the highest logit: the step function, on the logits
  \<open>[3, 2, 0]\<close> and a buffer that holds the tokens 0 and 2, returns token 1, the highest
  logit after the penalty, where the logits themselves have token 0 highest; the
  direct loop, at its first iteration on the same logits, appends token 0.
\<close>

theorem C1_pipeline_order_witness:
  "generate_t3_token (greedy_t3 toy_hp 8) [[3, 2, 0]] 1 [0, 2, 2, 2, 2, 2, 2, 2, 2] 0 2 () =
     Inr (1, [[1, 3 / 2, 2]], [0, 1, 2, 2, 2, 2, 2, 2, 2], ())
   \<and> 1 = greedy (spec_pipeline (repetition_penalty 2) 2 (with_history keep_all)
                  (with_history keep_all) [0, 2, 2, 2, 2, 2, 2, 2, 2] [3, 2, 0])
   \<and> greedy [3, 2, 0] = 0
   \<and> generate_fast_loop greedy_direct 2 (1 / 20) 1 0 (Suc 0) 0 [0] () = Inr [0, 0]
   \<and> 0 = greedy (keep_all None (temperature_scale 2 [3, 2, 0]))
   \<and> greedy (spec_pipeline (repetition_penalty 2) 2 (without_history keep_all)
                  (without_history keep_all) [0] [3, 2, 0]) = 1"
proof -
  note c1 = C1_pipeline_order [of "greedy_t3 toy_hp 8" "[[3, 2, 0]]" 1
      "[0, 2, 2, 2, 2, 2, 2, 2, 2]" 0 2 "()" 1 "[[1, 3 / 2, 2]]" "[0, 1, 2, 2, 2, 2, 2, 2, 2]" "()"
      greedy_direct "1 / 20" 1 0 0 "[0]" "()" "[0, 0]"]
  from c1 greedy_step obtain l0 where
    l0: "t3_cfg_logits 0 [[3, 2, 0]] = Inr l0"
    and t: "\<forall>rp mp tp. repetition_penalty_processor (greedy_t3 toy_hp 8) = Some rp
                \<and> min_p_warper (greedy_t3 toy_hp 8) = Some mp
                \<and> top_p_warper (greedy_t3 toy_hp 8) = Some tp \<longrightarrow>
              1 = fst (sample (greedy_t3 toy_hp 8) ()
                      (spec_pipeline rp 2 (with_history mp) (with_history tp)
                         [0, 2, 2, 2, 2, 2, 2, 2, 2] l0))"
    by blast
  from l0 have l0v: "l0 = [3, 2, 0]" by (simp add: t3_cfg_logits_def)
  from t have s1: "1 = greedy (spec_pipeline (repetition_penalty 2) 2 (with_history keep_all)
                  (with_history keep_all) [0, 2, 2, 2, 2, 2, 2, 2, 2] [3, 2, 0])"
    by (simp add: greedy_fields l0v)
  from c1 greedy_direct_step obtain l1 next_token where
    l1: "generate_fast_cfg 0 (di_speech_head greedy_direct ()) = Inr l1"
    and n: "next_token = fst (di_sample greedy_direct ()
               ((if (1::real) < 1 then di_top_p_warper greedy_direct None else id)
                 ((if (0::real) < 1 / 20 then di_min_p_warper greedy_direct None else id)
                   ((if 1 < length [0::token] then di_repetition_penalty_processor greedy_direct [0]
                     else id)
                     ((if (2::real) \<noteq> 1 then temperature_scale 2 else id) l1)))))"
    and o: "if next_token = stop_speech_token (di_hp greedy_direct) then [0, 0] = [0::token]
              else \<exists>new. [0, 0] = [0] @ next_token # new"
    by blast
  from l1 have l1v: "l1 = [3, 2, 0]" by (simp add: generate_fast_cfg_def greedy_direct_def)
  from o have "next_token = 0" by (simp split: if_splits)
  with n have s2: "0 = greedy (keep_all None (temperature_scale 2 [3, 2, 0]))"
    by (simp add: l1v greedy_direct_def)
  have s3: "greedy [3, 2, 0] = 0" by (simp add: greedy_def)
  have s4: "greedy (spec_pipeline (repetition_penalty 2) 2 (without_history keep_all)
                  (without_history keep_all) [0] [3, 2, 0]) = 1"
    by (simp add: spec_pipeline_def without_history_def keep_all_def repetition_penalty_def
          temperature_scale_def greedy_def)
  from greedy_step s1 s3 greedy_direct_step s2 s4 show ?thesis by blast
qed

text \<open>
  The claim as stated fails in the direct-inference loop. At its first decode step the
  history is the BOS token alone (token 0 of a vocabulary of three tokens here), and
  the loop hands the sampler the logits \<open>[2, 1, 1]\<close> unchanged, where the pipeline of
  the specification penalises the logit of the BOS token. With the sampler that draws
  the highest logit, the loop appends token 0 on the logits \<open>[3, 2, 0]\<close>, where the
  pipeline of the specification leaves token 1 highest.
\<close>

theorem C1_direct_loop_counterexample:
  "generate_fast_logits (repetition_penalty 2) keep_all keep_all 1 (1 / 20) 1 [0] [2, 1, 1]
     \<noteq> spec_pipeline (repetition_penalty 2) 1 (without_history keep_all)
         (without_history keep_all) [0] [2, 1, 1]
   \<and> generate_fast_loop greedy_direct 2 (1 / 20) 1 0 (Suc 0) 0 [0] () = Inr [0, 0]
   \<and> di_speech_head greedy_direct () = [[3, 2, 0]]
   \<and> greedy (spec_pipeline (repetition_penalty 2) 2 (without_history keep_all)
                  (without_history keep_all) [0] [3, 2, 0]) = 1"
proof -
  have a: "generate_fast_logits (repetition_penalty 2) keep_all keep_all 1 (1 / 20) 1 [0] [2, 1, 1]
     \<noteq> spec_pipeline (repetition_penalty 2) 1 (without_history keep_all)
         (without_history keep_all) [0] [2, 1, 1]"
    by (simp add: generate_fast_logits_def spec_pipeline_def repetition_penalty_def keep_all_def
        without_history_def temperature_scale_def)
  have b: "di_speech_head greedy_direct () = [[3, 2, 0]]" by (simp add: greedy_direct_def)
  have c: "greedy (spec_pipeline (repetition_penalty 2) 2 (without_history keep_all)
                  (without_history keep_all) [0] [3, 2, 0]) = 1"
    by (simp add: spec_pipeline_def without_history_def keep_all_def repetition_penalty_def
          temperature_scale_def greedy_def)
  from a greedy_direct_step b c show ?thesis by blast
qed

text \<open>
  C2. In the step function, with \<open>cfg_weight > 0\<close> the batch needs two rows (on a
  batch of one row the step raises), and the token the step returns is sampled from
  what the pipeline makes of the guided logits, which are, token by token,
  \<open>cond + cfg_weight * (cond - uncond)\<close>, with \<open>cond\<close> row 0 and \<open>uncond\<close> row 1 of the
  batch. With \<open>cfg_weight = 0\<close> (the branch of the code for every weight that is not
  positive) the token is sampled from what the pipeline makes of row 0 itself, and the
  step gives the same result whatever other rows the batch has.
\<close>

theorem C2_cfg_logits:
  "(0 < w \<longrightarrow>
      generate_t3_token m [row0] i ids w T h = Inl IndexError
    \<and> (generate_t3_token m ol i ids w T h = Inr (tok, ol', ids', h') \<longrightarrow>
        (\<exists>logits_cond logits_uncond others.
            ol = logits_cond # logits_uncond # others
          \<and> tok = fst (sample m h
                    (t3_process_logits (repetition_penalty_processor m) T
                       (min_p_warper m) (top_p_warper m) ids
                       (cfg_combine w logits_cond logits_uncond)))
          \<and> length (cfg_combine w logits_cond logits_uncond)
              = min (length logits_cond) (length logits_uncond)
          \<and> (\<forall>j. j < length logits_cond \<and> j < length logits_uncond \<longrightarrow>
                cfg_combine w logits_cond logits_uncond ! j =
                  logits_cond ! j + w * (logits_cond ! j - logits_uncond ! j)))))
   \<and> (w \<le> 0 \<longrightarrow>
        generate_t3_token m (row0 # rest) i ids w T h = generate_t3_token m [row0] i ids w T h
      \<and> (generate_t3_token m ol i ids w T h = Inr (tok, ol', ids', h') \<longrightarrow>
          (\<exists>logits_cond others.
              ol = logits_cond # others
            \<and> tok = fst (sample m h
                      (t3_process_logits (repetition_penalty_processor m) T
                         (min_p_warper m) (top_p_warper m) ids logits_cond)))))"
proof -
  have guided: "\<exists>logits_cond logits_uncond others.
            ol = logits_cond # logits_uncond # others
          \<and> tok = fst (sample m h
                    (t3_process_logits (repetition_penalty_processor m) T
                       (min_p_warper m) (top_p_warper m) ids
                       (cfg_combine w logits_cond logits_uncond)))
          \<and> length (cfg_combine w logits_cond logits_uncond)
              = min (length logits_cond) (length logits_uncond)
          \<and> (\<forall>j. j < length logits_cond \<and> j < length logits_uncond \<longrightarrow>
                cfg_combine w logits_cond logits_uncond ! j =
                  logits_cond ! j + w * (logits_cond ! j - logits_uncond ! j))"
    if w: "0 < w" and g: "generate_t3_token m ol i ids w T h = Inr (tok, ol', ids', h')"
  proof -
    from generate_t3_token_InrD(3) [OF g] obtain l0 where
      l0: "t3_cfg_logits w ol = Inr l0"
      and tok: "tok = fst (sample m h (t3_process_logits (repetition_penalty_processor m) T
                   (min_p_warper m) (top_p_warper m) ids l0))"
      by blast
    from l0 w obtain c u others where
      ol: "ol = c # u # others" and l0v: "l0 = cfg_combine w c u"
      by (auto simp: t3_cfg_logits_def split: list.splits)
    from ol tok l0v show ?thesis
      by (auto simp: length_cfg_combine nth_cfg_combine)
  qed
  have plain: "\<exists>logits_cond others.
              ol = logits_cond # others
            \<and> tok = fst (sample m h
                      (t3_process_logits (repetition_penalty_processor m) T
                         (min_p_warper m) (top_p_warper m) ids logits_cond))"
    if w: "w \<le> 0" and g: "generate_t3_token m ol i ids w T h = Inr (tok, ol', ids', h')"
  proof -
    from generate_t3_token_InrD(3) [OF g] obtain l0 where
      l0: "t3_cfg_logits w ol = Inr l0"
      and tok: "tok = fst (sample m h (t3_process_logits (repetition_penalty_processor m) T
                   (min_p_warper m) (top_p_warper m) ids l0))"
      by blast
    from l0 w obtain c others where "ol = c # others" and "l0 = c"
      by (auto simp: t3_cfg_logits_def split: list.splits)
    with tok show ?thesis by blast
  qed
  from guided plain generate_t3_token_one_row [of w m row0 i ids T h]
    generate_t3_token_row0 [of w m row0 rest i ids T h]
  show ?thesis by blast
qed

text \<open>
  With the sampler that draws the highest logit, on the rows \<open>[1, 2, 0]\<close> and
  \<open>[0, 4, 0]\<close>: the weight 1 gives the guided logits \<open>[2, 0, 0]\<close> and the token 0, the
  weight 0 gives the token 1.
\<close>

theorem C2_cfg_logits_witness:
  "(0::real) < 1
   \<and> generate_t3_token (greedy_t3 toy_hp 8) [[1, 2, 0]] 1 [0, 2, 2, 2, 2, 2, 2, 2, 2] 1 1 ()
       = Inl IndexError
   \<and> generate_t3_token (greedy_t3 toy_hp 8) [[1, 2, 0], [0, 4, 0]] 1
       [0, 2, 2, 2, 2, 2, 2, 2, 2] 1 1 () =
     Inr (0, [[1, 3 / 2, 2], [1, 3 / 2, 2]], [0, 0, 2, 2, 2, 2, 2, 2, 2], ())
   \<and> 0 = greedy (t3_process_logits (Some (repetition_penalty 2)) 1 (Some keep_all)
                  (Some keep_all) [0, 2, 2, 2, 2, 2, 2, 2, 2] (cfg_combine 1 [1, 2, 0] [0, 4, 0]))
   \<and> cfg_combine 1 [1, 2, 0] [0, 4, 0] = [2, 0, 0]
   \<and> generate_t3_token (greedy_t3 toy_hp 8) [[1, 2, 0], [0, 4, 0]] 1
       [0, 2, 2, 2, 2, 2, 2, 2, 2] 0 1 () =
     Inr (1, [[1, 3 / 2, 2]], [0, 1, 2, 2, 2, 2, 2, 2, 2], ())
   \<and> 1 = greedy (t3_process_logits (Some (repetition_penalty 2)) 1 (Some keep_all)
                  (Some keep_all) [0, 2, 2, 2, 2, 2, 2, 2, 2] [1, 2, 0])"
proof -
  let ?m = "greedy_t3 toy_hp 8"
  let ?ids = "[0, 2, 2, 2, 2, 2, 2, 2, 2] :: token list"
  note guided = C2_cfg_logits [of 1 ?m "[1, 2, 0]" 1 ?ids 1 "()" "[[1, 2, 0], [0, 4, 0]]" 0
      "[[1, 3 / 2, 2], [1, 3 / 2, 2]]" "[0, 0, 2, 2, 2, 2, 2, 2, 2]" "()" "[[0, 4, 0]]"]
  note plain = C2_cfg_logits [of 0 ?m "[1, 2, 0]" 1 ?ids 1 "()" "[[1, 2, 0], [0, 4, 0]]" 1
      "[[1, 3 / 2, 2]]" "[0, 1, 2, 2, 2, 2, 2, 2, 2]" "()" "[[0, 4, 0]]"]
  have pos: "(0::real) < 1" by simp
  from guided pos have one_row: "generate_t3_token ?m [[1, 2, 0]] 1 ?ids 1 1 () = Inl IndexError"
    by blast
  from guided pos greedy_guided_step obtain c u others where
    ol: "[[1, 2, 0], [0, 4, 0]] = c # u # others"
    and t: "0 = fst (sample ?m () (t3_process_logits (repetition_penalty_processor ?m) 1
                       (min_p_warper ?m) (top_p_warper ?m) ?ids (cfg_combine 1 c u)))"
    by blast
  from ol have "c = [1, 2, 0]" "u = [0, 4, 0]" by simp_all
  with t have s1: "0 = greedy (t3_process_logits (Some (repetition_penalty 2)) 1 (Some keep_all)
                  (Some keep_all) ?ids (cfg_combine 1 [1, 2, 0] [0, 4, 0]))"
    by (simp add: greedy_fields)
  have s2: "cfg_combine 1 [1, 2, 0] [0, 4, 0] = [2, 0, 0]" by (simp add: cfg_combine_def)
  have "(0::real) \<le> 0" by simp
  with plain greedy_plain_step obtain c' others' where
    ol': "[[1, 2, 0], [0, 4, 0]] = c' # others'"
    and t': "1 = fst (sample ?m () (t3_process_logits (repetition_penalty_processor ?m) 1
                       (min_p_warper ?m) (top_p_warper ?m) ?ids c'))"
    by blast
  from ol' have "c' = [1, 2, 0]" by simp
  with t' have s3: "1 = greedy (t3_process_logits (Some (repetition_penalty 2)) 1 (Some keep_all)
                  (Some keep_all) ?ids [1, 2, 0])"
    by (simp add: greedy_fields)
  from pos one_row greedy_guided_step s1 s2 greedy_plain_step s3 show ?thesis by blast
qed

section \<open>Claims on the generation driver\<close>




text \<open>
  C4 (as amended). When the caller's \<^verbatim>\<open>max_new_tokens\<close> exceeds
  \<open>max_cache_len - prompt length\<close>, the driver reduces it to that difference. Then:
  \<^item> if the difference is not below \<open>TOKEN_LIMIT\<close>, the driver's assertion raises;
  \<^item> if the difference is negative, \<^verbatim>\<open>torch.arange\<close> raises;
  \<^item> if the difference lies between 0 and \<open>TOKEN_LIMIT\<close> and the stride in effect is 0,
    the division by the stride raises;
  \<^item> if the difference lies between 0 and \<open>TOKEN_LIMIT\<close>, the stride in effect lies
    between 1 and 20 (it is 1 unless the name of the backend holds \<^verbatim>\<open>stride\<close>), and
    the forward passes return a row of logits for every row of the batch, then no
    error is raised and the returned sequence, which starts with BOS, has at most
    \<open>bos_len + (max_cache_len - prompt length)\<close> tokens.
\<close>

theorem C4_budget_clamp:
  assumes "max_cache_len req - prompt_len req < requested_new_tokens (hp m) req"
  shows "clamp_max_new_tokens (hp m) req = max_cache_len req - prompt_len req
     \<and> (int (TOKEN_LIMIT m) \<le> max_cache_len req - prompt_len req \<longrightarrow>
          inference_optimized m req kv h0 = Inl AssertionError)
     \<and> (max_cache_len req - prompt_len req < 0 \<longrightarrow>
          inference_optimized m req kv h0 = Inl RuntimeError)
     \<and> (0 \<le> max_cache_len req - prompt_len req
        \<and> max_cache_len req - prompt_len req < int (TOKEN_LIMIT m)
        \<and> effective_stride req = 0 \<longrightarrow>
          inference_optimized m req kv h0 = Inl ZeroDivisionError)
     \<and> (0 \<le> max_cache_len req - prompt_len req
        \<and> max_cache_len req - prompt_len req < int (TOKEN_LIMIT m)
        \<and> 1 \<le> effective_stride req \<and> effective_stride req \<le> 20
        \<and> (\<forall>h e. length (fst (patched_model m h e)) = length e)
        \<and> (if 0 < cfg_weight req then 2 else 1)
             \<le> length (fst (initial_forward_pass m h0 (nat (prompt_len req))))
        \<longrightarrow> (\<exists>out. inference_optimized m req kv h0 = Inr out
               \<and> length out \<le> bos_len + nat (max_cache_len req - prompt_len req)))"
proof -
  have clamp: "clamp_max_new_tokens (hp m) req = max_cache_len req - prompt_len req"
    using assms by (simp add: clamp_max_new_tokens_def Let_def)
  have err: "inference_optimized m req kv h0 = Inl AssertionError"
    if "int (TOKEN_LIMIT m) \<le> max_cache_len req - prompt_len req"
    using that clamp by (simp add: inference_optimized_def inference_run_def Let_def)
  have neg: "inference_optimized m req kv h0 = Inl RuntimeError"
    if "max_cache_len req - prompt_len req < 0"
    using that clamp by (simp add: inference_optimized_def inference_run_def Let_def)
  have zero: "inference_optimized m req kv h0 = Inl ZeroDivisionError"
    if "0 \<le> max_cache_len req - prompt_len req
        \<and> max_cache_len req - prompt_len req < int (TOKEN_LIMIT m)
        \<and> effective_stride req = 0"
    using that clamp by (simp add: inference_optimized_def inference_run_def Let_def)
  have ok: "\<exists>out. inference_optimized m req kv h0 = Inr out
               \<and> length out \<le> bos_len + nat (max_cache_len req - prompt_len req)"
    if h: "0 \<le> max_cache_len req - prompt_len req
        \<and> max_cache_len req - prompt_len req < int (TOKEN_LIMIT m)
        \<and> 1 \<le> effective_stride req \<and> effective_stride req \<le> 20
        \<and> (\<forall>h e. length (fst (patched_model m h e)) = length e)
        \<and> (if 0 < cfg_weight req then 2 else 1)
             \<le> length (fst (initial_forward_pass m h0 (nat (prompt_len req))))"
  proof -
    from h have rows: "\<And>h e. length (fst (patched_model m h e)) = length e" by blast
    from h clamp have mn: "0 \<le> clamp_max_new_tokens (hp m) req"
      "clamp_max_new_tokens (hp m) req < int (TOKEN_LIMIT m)" by simp_all
    from h have st: "1 \<le> effective_stride req" "effective_stride req \<le> 20" by blast+
    from h have init: "(if 0 < cfg_weight req then 2 else 1)
             \<le> length (fst (initial_forward_pass m h0 (nat (prompt_len req))))" by blast
    from inference_run_total [OF rows init st mn, of kv] obtain c s where
      "inference_run m req kv h0 = Inr (clamp_max_new_tokens (hp m) req, c, s)" by blast
    then obtain out where o: "inference_optimized m req kv h0 = Inr out"
      by (simp add: inference_optimized_def)
    from inference_optimized_length_le [OF o] clamp o show ?thesis by auto
  qed
  from clamp err neg zero ok show ?thesis by blast
qed

theorem C4_budget_clamp_witness:
  "max_cache_len small_request - prompt_len small_request
     < requested_new_tokens toy_hp small_request
   \<and> clamp_max_new_tokens toy_hp small_request
       = max_cache_len small_request - prompt_len small_request
   \<and> (\<exists>out. inference_optimized (scripted_t3 toy_hp 8) small_request None [2, 1] = Inr out
         \<and> length out \<le> bos_len + nat (max_cache_len small_request - prompt_len small_request))"
proof -
  let ?m = "scripted_t3 toy_hp 8"
  have over: "max_cache_len small_request - prompt_len small_request
                < requested_new_tokens (hp ?m) small_request"
    by (simp add: run_defs)
  have pre: "0 \<le> max_cache_len small_request - prompt_len small_request
        \<and> max_cache_len small_request - prompt_len small_request < int (TOKEN_LIMIT ?m)
        \<and> 1 \<le> effective_stride small_request \<and> effective_stride small_request \<le> 20
        \<and> (\<forall>h e. length (fst (patched_model ?m h e)) = length e)
        \<and> (if 0 < cfg_weight small_request then 2 else 1)
             \<le> length (fst (initial_forward_pass ?m [2, 1] (nat (prompt_len small_request))))"
    by (simp add: run_defs)
  from C4_budget_clamp [OF over, of None "[2, 1]"] pre over
  show ?thesis by (simp add: toy_fields)
qed

text \<open>
  The claim as stated fails twice. A request for 3000 tokens after a prompt of 100
  positions, with the default cache of 2048 positions and the limit of 1500, is
  clamped to 1948 tokens and then refused by the assertion. And where the budget is
  clamped to \<open>32 - 30 = 2\<close> tokens, the returned sequence has 3 tokens: BOS and the two
  new ones.
\<close>

theorem C4_budget_clamp_counterexample:
  "inference_optimized (scripted_t3 released_hp 1500) large_request None [5, 7, 9]
     = Inl AssertionError
   \<and> max_cache_len small_request - prompt_len small_request = 2
   \<and> map_sum id length
       (inference_optimized (scripted_t3 released_hp 1500) small_request None [5, 7, 9]) = Inr 3"
  using large_run_asserts released_result_length
  by (simp add: small_request_def prompt_len_def)

text \<open>
  C5 (as amended). The driver allocates a cache handle, for the effective batch size
  and the cache length of the request, only when the object holds none. A handle the
  object already holds is reset and used as it is, whatever batch size and cache
  length the request needs; the driver compares neither and raises nothing.
\<close>

theorem C5_cache_handle_reuse:
  assumes "inference_run m req kv h0 = Inr (mn, c, s)"
  shows "c = (case kv of
                None \<Rightarrow> StaticCache (if 0 < cfg_weight req then 2 else 1) (max_cache_len req)
              | Some old \<Rightarrow> old)"
  using inference_run_InrD(5) [OF assms]
  by (simp add: setup_kv_cache_def reset_def split: option.splits)

theorem C5_cache_handle_reuse_witness:
  "inference_run (scripted_t3 toy_hp 8) small_request None [2, 1] =
     Inr (2, \<lparr>sc_batch_size = 1, sc_max_cache_len = 32\<rparr>,
          \<lparr>generated_ids = [0, 2, 1, 2, 2, 2, 2, 2, 2], output_logits = [[1, 0, 2]],
           hidden = [], wrapper_log = [Guard, Call 8, Call 8]\<rparr>)
   \<and> \<lparr>sc_batch_size = 1, sc_max_cache_len = 32\<rparr> = StaticCache 1 (max_cache_len small_request)"
  using C5_cache_handle_reuse [OF toy_run] toy_run by (simp add: small_request_def)

text \<open>
  The claim as stated fails: for a request of effective batch size 2 the driver takes
  the handle of batch size 1 that the object holds. So after a request without
  guidance, which has allocated a handle of batch size 1, a request with guidance is
  run on that handle, and the driver raises nothing.
\<close>

theorem C5_incompatible_handle_counterexample:
  "setup_kv_cache (Some \<lparr>sc_batch_size = 1, sc_max_cache_len = 32\<rparr>) 2 32
     = \<lparr>sc_batch_size = 1, sc_max_cache_len = 32\<rparr>
   \<and> 0 < cfg_weight guided_request
   \<and> run_kv_cache (inference_run (scripted_t3 released_hp 1500) small_request None [5, 7, 9])
       = Some \<lparr>sc_batch_size = 1, sc_max_cache_len = 32\<rparr>
   \<and> run_kv_cache
        (inference_run (scripted_t3 released_hp 1500) guided_request
           (run_kv_cache (inference_run (scripted_t3 released_hp 1500) small_request None [5, 7, 9]))
           [5, 7, 9])
       = Some \<lparr>sc_batch_size = 1, sc_max_cache_len = 32\<rparr>"
proof -
  have s: "setup_kv_cache (Some \<lparr>sc_batch_size = 1, sc_max_cache_len = 32\<rparr>) 2 32
             = \<lparr>sc_batch_size = 1, sc_max_cache_len = 32\<rparr>"
    by (simp add: setup_kv_cache_def reset_def)
  have a: "0 < cfg_weight guided_request"
    by (simp add: guided_request_def)
  have b: "run_kv_cache (inference_run (scripted_t3 released_hp 1500) small_request None [5, 7, 9])
             = Some \<lparr>sc_batch_size = 1, sc_max_cache_len = 32\<rparr>"
    by (simp only: released_run) (simp add: run_kv_cache_def)
  have c: "run_kv_cache (inference_run (scripted_t3 released_hp 1500) guided_request
               (Some \<lparr>sc_batch_size = 1, sc_max_cache_len = 32\<rparr>) [5, 7, 9])
             = Some \<lparr>sc_batch_size = 1, sc_max_cache_len = 32\<rparr>"
    by (simp only: released_guided_run) (simp add: run_kv_cache_def)
  from s a c show ?thesis unfolding b by blast
qed

text \<open>
  C6 (as amended). The driver calls \<^verbatim>\<open>guard()\<close> once per request, after the
  initial forward pass and before the decode loop. Every call of the wrapper in the
  loop comes after that one guard; the loop itself calls no guard, so two calls of the
  wrapper have none between them. With a backend other than
  \<^verbatim>\<open>cudagraphs-manual\<close> the wrapper is not called at all.
\<close>

theorem C6_guard_once_before_loop:
  assumes "inference_run m req kv h0 = Inr (mn, c, s)"
  shows "\<exists>calls. wrapper_log s = Guard # calls \<and> Guard \<notin> set calls
           \<and> (generate_token_backend req \<noteq> ''cudagraphs-manual'' \<longrightarrow> calls = [])"
proof -
  note run = inference_run_InrD(6) [OF assms]
  from decode_loop_log [OF run] obtain calls where
    c: "wrapper_log s = Guard # calls" "Guard \<notin> set calls"
    by (auto simp: wrapper_log_loop_start)
  have "calls = []" if "generate_token_backend req \<noteq> ''cudagraphs-manual''"
    using decode_loop_no_wrapper [OF run that] c(1) by (simp add: wrapper_log_loop_start)
  with c show ?thesis by blast
qed

theorem C6_guard_once_before_loop_witness:
  "inference_run (scripted_t3 toy_hp 8) small_request None [2, 1] =
     Inr (2, \<lparr>sc_batch_size = 1, sc_max_cache_len = 32\<rparr>,
          \<lparr>generated_ids = [0, 2, 1, 2, 2, 2, 2, 2, 2], output_logits = [[1, 0, 2]],
           hidden = [], wrapper_log = [Guard, Call 8, Call 8]\<rparr>)
   \<and> (\<exists>calls. [Guard, Call 8, Call 8] = Guard # calls \<and> Guard \<notin> set calls)"
  using C6_guard_once_before_loop [OF toy_run] toy_run by simp

text \<open>
  The claim as stated fails: in a request that generates two tokens the wrapper is
  called twice after the one guard, so the second call has no guard of its own.
\<close>

theorem C6_guard_per_call_counterexample:
  "run_log (inference_run (scripted_t3 released_hp 1500) small_request None [5, 7, 9])
     = [Guard, Call 250, Call 250]
   \<and> \<not> guard_before_each_call
         (run_log (inference_run (scripted_t3 released_hp 1500) small_request None [5, 7, 9]))"
  by (simp only: released_run) (simp add: run_log_def)

section \<open>Claims on the embedding cache builders\<close>

text \<open>
  C7. The claim holds of the speech-token cache and of a positional cache that
  covers the request (lemmas \<open>pos_cache_covering_unchanged\<close>,
  \<open>speech_cache_covering_unchanged\<close>, \<open>pos_cache_rebuilt_in_full\<close>,
  \<open>speech_cache_rebuilt_dtype\<close>). It fails where the positional cache is rebuilt:
  on a model whose embeddings are float32 and that has no positional cache yet,
  \<^verbatim>\<open>get_speech_pos_embedding_cache(1501, dtype=torch.float16)\<close> returns a float32
  cache, and the same call made again returns another tensor, the float16 conversion
  of the first; the requested dtype reaches a rebuilt cache only with the next call.
\<close>

theorem C7_pos_cache_rebuild_keeps_embedding_dtype:
  "dtype_of (get_speech_pos_embedding_cache convert emb Float32 None 1501 Float16) = Float32
   \<and> get_speech_pos_embedding_cache convert emb Float32
        (Some (get_speech_pos_embedding_cache convert emb Float32 None 1501 Float16))
        1501 Float16
        = to_dtype convert Float16
            (get_speech_pos_embedding_cache convert emb Float32 None 1501 Float16)
   \<and> get_speech_pos_embedding_cache convert emb Float32
        (Some (get_speech_pos_embedding_cache convert emb Float32 None 1501 Float16))
        1501 Float16
        \<noteq> get_speech_pos_embedding_cache convert emb Float32 None 1501 Float16"
  by (rule pos_cache_second_call) simp

section \<open>Claims on the decode loop\<close>

text \<open>
  C9. When iteration \<open>k\<close> of the decode loop starts, the buffer has its allocated length
  \<open>bos_len + TOKEN_LIMIT\<close> and every position beyond the highest index written so far
  holds the pad value \<open>stop_speech_token + 1\<close>. The step of that iteration writes the
  token it has sampled to the one position \<^verbatim>\<open>i_tensor\<close> \<open>= k * stride + 1\<close>, which
  lies beyond the highest index written so far and inside the buffer; after the step
  that position holds the sampled token, every other position holds what it held
  before, the length is the same, and every position beyond \<^verbatim>\<open>i_tensor\<close> still
  holds the pad value. An iteration that leaves the loop writes nothing.
\<close>

theorem C9_pad_tail_invariant:
  assumes "iteration_state m req (prompt_len req) (effective_stride req)
             (loop_start m req h0) k = Some s"
    and "0 \<le> clamp_max_new_tokens (hp m) req"
    and "k \<le> nat (clamp_max_new_tokens (hp m) req div effective_stride req)"
  shows "length (generated_ids s) = bos_len + TOKEN_LIMIT m
     \<and> pad_beyond (PAD_TOKEN_ID (hp m)) (highest_written (effective_stride req) k)
         (generated_ids s)
     \<and> (\<forall>s'. decode_iteration m req (prompt_len req) (effective_stride req) (int k) s
                = Inr (False, s') \<longrightarrow>
           highest_written (effective_stride req) (Suc k)
             = nat (int k * effective_stride req + 1)
         \<and> highest_written (effective_stride req) k
             < highest_written (effective_stride req) (Suc k)
         \<and> highest_written (effective_stride req) (Suc k) < length (generated_ids s)
         \<and> length (generated_ids s') = length (generated_ids s)
         \<and> (\<exists>l0. t3_cfg_logits (cfg_weight req) (output_logits s) = Inr l0
              \<and> generated_ids s' =
                  (generated_ids s)[highest_written (effective_stride req) (Suc k) :=
                     fst (sample m (hidden s)
                            (t3_process_logits (repetition_penalty_processor m) (temperature req)
                               (min_p_warper m) (top_p_warper m) (generated_ids s) l0))]
              \<and> generated_ids s' ! highest_written (effective_stride req) (Suc k) =
                     fst (sample m (hidden s)
                            (t3_process_logits (repetition_penalty_processor m) (temperature req)
                               (min_p_warper m) (top_p_warper m) (generated_ids s) l0)))
         \<and> (\<forall>j. j \<noteq> highest_written (effective_stride req) (Suc k) \<longrightarrow>
                generated_ids s' ! j = generated_ids s ! j)
         \<and> pad_beyond (PAD_TOKEN_ID (hp m)) (highest_written (effective_stride req) (Suc k))
             (generated_ids s'))
     \<and> (\<forall>s'. decode_iteration m req (prompt_len req) (effective_stride req) (int k) s
                = Inr (True, s') \<longrightarrow> s' = s)"
proof -
  let ?st = "effective_stride req"
  let ?ids = "generated_ids s"
  let ?pad = "PAD_TOKEN_ID (hp m)"
  let ?pos = "highest_written ?st (Suc k)"
  have st: "1 \<le> ?st \<or> k = 0" using iterations_need_stride [OF assms(2,3)] .
  have inv: "length ?ids = bos_len + TOKEN_LIMIT m
         \<and> ?ids ! 0 = start_speech_token (hp m)
         \<and> pad_beyond ?pad (highest_written ?st k) ?ids"
    using iteration_state_invariant [OF assms(1) st generated_ids_loop_start] .
  have mono: "highest_written ?st k < ?pos"
    using st highest_written_mono highest_written_first by blast
  have step: "?pos = nat (int k * ?st + 1)
         \<and> highest_written ?st k < ?pos
         \<and> ?pos < length ?ids
         \<and> length (generated_ids s') = length ?ids
         \<and> (\<exists>l0. t3_cfg_logits (cfg_weight req) (output_logits s) = Inr l0
              \<and> generated_ids s' =
                  ?ids[?pos :=
                     fst (sample m (hidden s)
                            (t3_process_logits (repetition_penalty_processor m) (temperature req)
                               (min_p_warper m) (top_p_warper m) ?ids l0))]
              \<and> generated_ids s' ! ?pos =
                     fst (sample m (hidden s)
                            (t3_process_logits (repetition_penalty_processor m) (temperature req)
                               (min_p_warper m) (top_p_warper m) ?ids l0)))
         \<and> (\<forall>j. j \<noteq> ?pos \<longrightarrow> generated_ids s' ! j = ?ids ! j)
         \<and> pad_beyond ?pad ?pos (generated_ids s')"
    if it: "decode_iteration m req (prompt_len req) ?st (int k) s = Inr (False, s')" for s'
  proof -
    from decode_iteration_step [OF it] obtain tok ol' h' where
      g: "generate_t3_token m (output_logits s) (nat (int k * ?st + 1)) ?ids
            (cfg_weight req) (temperature req) (hidden s) = Inr (tok, ol', generated_ids s', h')"
      by blast
    have p: "?pos = nat (int k * ?st + 1)" by (rule highest_written_Suc)
    from generate_t3_token_InrD(1) [OF g] have lt: "?pos < length ?ids" by (simp only: p)
    from generate_t3_token_InrD(2) [OF g] have upd: "generated_ids s' = ?ids[?pos := tok]"
      by (simp only: p)
    from generate_t3_token_InrD(3) [OF g] obtain l0 where
      l0: "t3_cfg_logits (cfg_weight req) (output_logits s) = Inr l0"
      and tok: "tok = fst (sample m (hidden s)
                   (t3_process_logits (repetition_penalty_processor m) (temperature req)
                      (min_p_warper m) (top_p_warper m) ?ids l0))"
      by blast
    have len: "length (generated_ids s') = length ?ids" using upd by simp
    have at: "generated_ids s' ! ?pos = tok" using upd lt by simp
    have others: "\<forall>j. j \<noteq> ?pos \<longrightarrow> generated_ids s' ! j = ?ids ! j" using upd by simp
    have pad: "pad_beyond ?pad ?pos (generated_ids s')"
      unfolding pad_beyond_iff
    proof (intro allI impI)
      fix i assume i: "?pos < i \<and> i < length (generated_ids s')"
      with mono len inv have "?ids ! i = ?pad" by (simp add: pad_beyond_iff)
      with i others show "generated_ids s' ! i = ?pad" by simp
    qed
    have ex: "\<exists>l0. t3_cfg_logits (cfg_weight req) (output_logits s) = Inr l0
              \<and> generated_ids s' =
                  ?ids[?pos :=
                     fst (sample m (hidden s)
                            (t3_process_logits (repetition_penalty_processor m) (temperature req)
                               (min_p_warper m) (top_p_warper m) ?ids l0))]
              \<and> generated_ids s' ! ?pos =
                     fst (sample m (hidden s)
                            (t3_process_logits (repetition_penalty_processor m) (temperature req)
                               (min_p_warper m) (top_p_warper m) ?ids l0))"
      using l0 upd at unfolding tok by blast
    from p mono lt len ex others pad show ?thesis by blast
  qed
  have brk: "s' = s"
    if "decode_iteration m req (prompt_len req) ?st (int k) s = Inr (True, s')" for s'
    using decode_iteration_break(1) [OF that] .
  from inv step brk show ?thesis by blast
qed

text \<open>
  With the hyperparameters of the released model and a buffer of \<open>1 + 8\<close> positions:
  when iteration 1 starts, position 1 holds the token 5 of iteration 0 and the
  positions beyond it the pad value 6563; the step writes the token 7 to position 2.
\<close>

theorem C9_pad_tail_invariant_witness:
  "iteration_state (scripted_t3 released_hp 8) small_request (prompt_len small_request)
      (effective_stride small_request)
      (loop_start (scripted_t3 released_hp 8) small_request [5, 7, 9]) 1 =
     Some \<lparr>generated_ids = [6561, 5, 6563, 6563, 6563, 6563, 6563, 6563, 6563],
           output_logits = [[1, 0, 2]], hidden = [7, 9], wrapper_log = [Guard, Call 8]\<rparr>
   \<and> 0 \<le> clamp_max_new_tokens released_hp small_request
   \<and> 1 \<le> nat (clamp_max_new_tokens released_hp small_request div effective_stride small_request)
   \<and> length [6561, 5, 6563, 6563, 6563, 6563, 6563, 6563, 6563 :: token] = bos_len + 8
   \<and> highest_written (effective_stride small_request) 1 = 1
   \<and> pad_beyond (PAD_TOKEN_ID released_hp) 1
        [6561, 5, 6563, 6563, 6563, 6563, 6563, 6563, 6563]
   \<and> decode_iteration (scripted_t3 released_hp 8) small_request (prompt_len small_request)
      (effective_stride small_request) (int 1)
      \<lparr>generated_ids = [6561, 5, 6563, 6563, 6563, 6563, 6563, 6563, 6563],
           output_logits = [[1, 0, 2]], hidden = [7, 9], wrapper_log = [Guard, Call 8]\<rparr> =
     Inr (False, \<lparr>generated_ids = [6561, 5, 7, 6563, 6563, 6563, 6563, 6563, 6563],
           output_logits = [[1, 0, 2]], hidden = [9], wrapper_log = [Guard, Call 8, Call 8]\<rparr>)
   \<and> highest_written (effective_stride small_request) 2 = 2
   \<and> [6561, 5, 7, 6563, 6563, 6563, 6563, 6563, 6563]
        = [6561, 5, 6563, 6563, 6563, 6563, 6563, 6563, 6563 :: token][2 := 7]
   \<and> pad_beyond (PAD_TOKEN_ID released_hp) 2
        [6561, 5, 7, 6563, 6563, 6563, 6563, 6563, 6563]"
proof -
  let ?m = "scripted_t3 released_hp 8"
  let ?s = "\<lparr>generated_ids = [6561, 5, 6563, 6563, 6563, 6563, 6563, 6563, 6563],
           output_logits = [[1, 0, 2]], hidden = [7, 9 :: token],
           wrapper_log = [Guard, Call 8]\<rparr>"
  let ?s' = "\<lparr>generated_ids = [6561, 5, 7, 6563, 6563, 6563, 6563, 6563, 6563],
           output_logits = [[1, 0, 2]], hidden = [9 :: token],
           wrapper_log = [Guard, Call 8, Call 8]\<rparr>"
  let ?st = "effective_stride small_request"
  note c9 = C9_pad_tail_invariant [OF short_iteration_1 short_budget]
  from c9 have a: "length (generated_ids ?s) = bos_len + TOKEN_LIMIT ?m"
    and b: "pad_beyond (PAD_TOKEN_ID (hp ?m)) (highest_written ?st 1) (generated_ids ?s)"
    by blast+
  from c9 short_step_1 have c: "pad_beyond (PAD_TOKEN_ID (hp ?m)) (highest_written ?st (Suc 1))
             (generated_ids ?s')"
    by blast
  have hw: "highest_written ?st 1 = 1" "highest_written ?st 2 = 2"
    by (simp_all add: highest_written_def effective_stride_def small_request_def)
  have s2: "Suc 1 = 2" by simp
  from a have a': "length [6561, 5, 6563, 6563, 6563, 6563, 6563, 6563, 6563 :: token] = bos_len + 8"
    by (simp add: toy_fields)
  from b have b': "pad_beyond (PAD_TOKEN_ID released_hp) 1
        [6561, 5, 6563, 6563, 6563, 6563, 6563, 6563, 6563]"
    by (simp only: hw toy_fields) simp
  from c have c': "pad_beyond (PAD_TOKEN_ID released_hp) 2
        [6561, 5, 7, 6563, 6563, 6563, 6563, 6563, 6563]"
    by (simp only: s2 hw toy_fields) simp
  have u: "[6561, 5, 7, 6563, 6563, 6563, 6563, 6563, 6563]
        = [6561, 5, 6563, 6563, 6563, 6563, 6563, 6563, 6563 :: token][2 := 7]"
    by (simp add: numeral_2_eq_2)
  from short_budget have bud: "0 \<le> clamp_max_new_tokens released_hp small_request"
    "1 \<le> nat (clamp_max_new_tokens released_hp small_request div effective_stride small_request)"
    by (simp_all only: toy_fields)
  from short_iteration_1 bud a' hw b' short_step_1 u c' show ?thesis by blast
qed

text \<open>
  C10 (as amended). At every decode step the history handed to the repetition penalty
  is the whole buffer: all its \<open>bos_len + TOKEN_LIMIT\<close> positions, BOS at the front and
  the pad value \<open>stop_speech_token + 1\<close> at the end; the token the step writes is
  sampled from the logits that the remaining stages make of the penalty's result on
  that history. So the penalty of the specification (division by the penalty factor)
  divides the logit of the pad token at every step. The pad value can be part of the
  returned sequence all the same. With the stride 1 the returned slice ends at or
  before the highest index written, so that it holds BOS and sampled tokens only; but
  nothing keeps the sampler from drawing the pad value, and with a stride above 1 the
  returned slice holds the positions between two written ones, which still hold the
  pad value.
\<close>

theorem C10_history_is_whole_buffer:
  assumes "iteration_state m req (prompt_len req) (effective_stride req)
             (loop_start m req h0) k = Some s"
    and "0 \<le> clamp_max_new_tokens (hp m) req"
    and "k \<le> nat (clamp_max_new_tokens (hp m) req div effective_stride req)"
    and "repetition_penalty_processor m = Some rp"
    and "decode_iteration m req (prompt_len req) (effective_stride req) (int k) s
           = Inr (False, s')"
  shows "length (generated_ids s) = bos_len + TOKEN_LIMIT m
     \<and> generated_ids s ! 0 = start_speech_token (hp m)
     \<and> last (generated_ids s) = PAD_TOKEN_ID (hp m)
     \<and> (\<exists>l0. t3_cfg_logits (cfg_weight req) (output_logits s) = Inr l0
           \<and> generated_ids s' ! highest_written (effective_stride req) (Suc k) =
               fst (sample m (hidden s)
                     (t3_process_logits None (temperature req) (min_p_warper m) (top_p_warper m)
                        (generated_ids s) (rp (generated_ids s) l0))))
     \<and> (\<forall>p l. 0 \<le> PAD_TOKEN_ID (hp m) \<and> nat (PAD_TOKEN_ID (hp m)) < length l \<longrightarrow>
           repetition_penalty p (generated_ids s) l ! nat (PAD_TOKEN_ID (hp m)) =
             l ! nat (PAD_TOKEN_ID (hp m)) / p)
     \<and> (\<forall>kv mn c sf. inference_run m req kv h0 = Inr (mn, c, sf)
             \<and> effective_stride req = 1 \<longrightarrow>
           (\<exists>n. iteration_state m req (prompt_len req) 1 (loop_start m req h0) n = Some sf
              \<and> length (select_tokens (stop_speech_token (hp m)) mn (generated_ids sf))
                  \<le> Suc (highest_written 1 n)))"
proof -
  let ?st = "effective_stride req"
  let ?ids = "generated_ids s"
  let ?pad = "PAD_TOKEN_ID (hp m)"
  let ?pos = "highest_written ?st (Suc k)"
  have st: "1 \<le> ?st \<or> k = 0" using iterations_need_stride [OF assms(2,3)] .
  have inv: "length ?ids = bos_len + TOKEN_LIMIT m"
     "?ids ! 0 = start_speech_token (hp m)"
     "pad_beyond ?pad (highest_written ?st k) ?ids"
    using iteration_state_invariant [OF assms(1) st generated_ids_loop_start] by auto
  have mono: "highest_written ?st k < ?pos"
    using st highest_written_mono highest_written_first by blast
  have pos: "?pos < length ?ids"
    using decode_iteration_writes(1) [OF assms(5)] by (simp add: highest_written_Suc)
  then have ne: "?ids \<noteq> []" by auto
  have lastpos: "highest_written ?st k < length ?ids - 1" using mono pos by linarith
  have "last ?ids = ?ids ! (length ?ids - 1)" using ne by (simp add: last_conv_nth)
  also have "\<dots> = ?pad" using inv(3) lastpos ne by (simp add: pad_beyond_iff)
  finally have last: "last ?ids = ?pad" .
  then have mem: "?pad \<in> set ?ids" using ne last_in_set by metis
  from decode_iteration_step [OF assms(5)] obtain tok ol' h' where
    g: "generate_t3_token m (output_logits s) (nat (int k * ?st + 1)) ?ids
          (cfg_weight req) (temperature req) (hidden s) = Inr (tok, ol', generated_ids s', h')"
    by blast
  from generate_t3_token_InrD(3) [OF g] assms(4) obtain l0 where
    l0: "t3_cfg_logits (cfg_weight req) (output_logits s) = Inr l0"
    and tok: "tok = fst (sample m (hidden s)
                (t3_process_logits None (temperature req) (min_p_warper m) (top_p_warper m)
                   ?ids (rp ?ids l0)))"
    by (auto simp: t3_process_logits_rep_first)
  from generate_t3_token_InrD(2) [OF g] pos have "generated_ids s' ! ?pos = tok"
    by (simp add: highest_written_Suc)
  with l0 tok have sampled: "\<exists>l0. t3_cfg_logits (cfg_weight req) (output_logits s) = Inr l0
           \<and> generated_ids s' ! ?pos =
               fst (sample m (hidden s)
                     (t3_process_logits None (temperature req) (min_p_warper m) (top_p_warper m)
                        ?ids (rp ?ids l0)))"
    by blast
  have pen: "repetition_penalty p ?ids l ! nat ?pad = l ! nat ?pad / p"
    if "0 \<le> ?pad \<and> nat ?pad < length l" for p l
    using that mem by (simp add: repetition_penalty_nth)
  have out: "\<exists>n. iteration_state m req (prompt_len req) 1 (loop_start m req h0) n = Some sf
              \<and> length (select_tokens (stop_speech_token (hp m)) mn (generated_ids sf))
                  \<le> Suc (highest_written 1 n)"
    if "inference_run m req kv h0 = Inr (mn, c, sf) \<and> effective_stride req = 1"
    for kv mn c sf
    using returned_positions_written [of m req kv h0 mn c sf] that by blast
  from inv(1,2) last sampled pen out show ?thesis by blast
qed

text \<open>
  With the sampler that draws the highest logit, on the logits \<open>[1, 3/2, 2]\<close>: the
  first step writes token 1, the highest logit once the logits of BOS (token 0) and of
  the pad value (token 2) are halved; with BOS alone as history the pad value itself
  would be drawn.
\<close>

theorem C10_history_is_whole_buffer_witness:
  "iteration_state (greedy_t3 toy_hp 8) small_request (prompt_len small_request)
      (effective_stride small_request) (loop_start (greedy_t3 toy_hp 8) small_request ()) 0 =
     Some \<lparr>generated_ids = [0, 2, 2, 2, 2, 2, 2, 2, 2],
           output_logits = [[1, 3 / 2, 2], [0, 0, 1]], hidden = (), wrapper_log = [Guard]\<rparr>
   \<and> repetition_penalty_processor (greedy_t3 toy_hp 8) = Some (repetition_penalty 2)
   \<and> decode_iteration (greedy_t3 toy_hp 8) small_request (prompt_len small_request)
      (effective_stride small_request) (int 0)
      \<lparr>generated_ids = [0, 2, 2, 2, 2, 2, 2, 2, 2], output_logits = [[1, 3 / 2, 2], [0, 0, 1]],
       hidden = (), wrapper_log = [Guard]\<rparr> =
     Inr (False, \<lparr>generated_ids = [0, 1, 2, 2, 2, 2, 2, 2, 2], output_logits = [[1, 3 / 2, 2]],
           hidden = (), wrapper_log = [Guard, Call 8]\<rparr>)
   \<and> last [0, 2, 2, 2, 2, 2, 2, 2, 2] = PAD_TOKEN_ID toy_hp
   \<and> [0, 1, 2, 2, 2, 2, 2, 2, 2] ! 1
        = greedy (repetition_penalty 2 [0, 2, 2, 2, 2, 2, 2, 2, 2] [1, 3 / 2, 2])
   \<and> greedy (repetition_penalty 2 [0] [1, 3 / 2, 2]) = 2
   \<and> repetition_penalty 2 [0, 2, 2, 2, 2, 2, 2, 2, 2] [1, 3 / 2, 2] ! nat (PAD_TOKEN_ID toy_hp)
        = [1, 3 / 2, 2] ! nat (PAD_TOKEN_ID toy_hp) / 2"
proof -
  let ?m = "greedy_t3 toy_hp 8"
  let ?s = "\<lparr>generated_ids = [0, 2, 2, 2, 2, 2, 2, 2, 2],
           output_logits = [[1, 3 / 2, 2], [0, 0, 1]], hidden = (), wrapper_log = [Guard]\<rparr>"
  let ?s' = "\<lparr>generated_ids = [0, 1, 2, 2, 2, 2, 2, 2, 2], output_logits = [[1, 3 / 2, 2]],
           hidden = (), wrapper_log = [Guard, Call 8]\<rparr>"
  let ?pad = "PAD_TOKEN_ID (hp ?m)"
  let ?st = "effective_stride small_request"
  have it: "iteration_state ?m small_request (prompt_len small_request) ?st
              (loop_start ?m small_request ()) 0 = Some ?s"
    by (simp add: greedy_loop_start)
  have d: "0 \<le> ?pad \<and> nat ?pad < length [1, 3 / 2, 2 :: real]"
    by (simp add: greedy_fields toy_hp_def PAD_TOKEN_ID_def)
  note c10 = C10_history_is_whole_buffer [OF it greedy_budget greedy_fields(1) greedy_iteration_0]
  from c10 have l: "last (generated_ids ?s) = ?pad"
    and p: "\<forall>p l. 0 \<le> ?pad \<and> nat ?pad < length l \<longrightarrow>
           repetition_penalty p (generated_ids ?s) l ! nat ?pad = l ! nat ?pad / p"
    by blast+
  from c10 obtain l0 where
    l0: "t3_cfg_logits (cfg_weight small_request) (output_logits ?s) = Inr l0"
    and t: "generated_ids ?s' ! highest_written ?st (Suc 0) =
               fst (sample ?m (hidden ?s)
                     (t3_process_logits None (temperature small_request) (min_p_warper ?m)
                        (top_p_warper ?m) (generated_ids ?s)
                        (repetition_penalty 2 (generated_ids ?s) l0)))"
    by blast
  from l0 have l0v: "l0 = [1, 3 / 2, 2]" by (simp add: t3_cfg_logits_def small_request_def)
  have hw: "highest_written ?st (Suc 0) = 1"
    by (simp add: highest_written_def effective_stride_def small_request_def)
  from t have t': "[0, 1, 2, 2, 2, 2, 2, 2, 2] ! 1
        = greedy (repetition_penalty 2 [0, 2, 2, 2, 2, 2, 2, 2, 2] [1, 3 / 2, 2])"
    by (simp only: hw l0v greedy_fields)
       (simp add: t3_process_logits_def keep_all_def small_request_def)
  from l have l': "last [0, 2, 2, 2, 2, 2, 2, 2, 2] = PAD_TOKEN_ID toy_hp"
    by (simp add: greedy_fields del: last.simps)
  from p d have "repetition_penalty 2 (generated_ids ?s) [1, 3 / 2, 2] ! nat ?pad
                   = [1, 3 / 2, 2] ! nat ?pad / 2"
    by blast
  then have p': "repetition_penalty 2 [0, 2, 2, 2, 2, 2, 2, 2, 2] [1, 3 / 2, 2]
                    ! nat (PAD_TOKEN_ID toy_hp)
        = [1, 3 / 2, 2] ! nat (PAD_TOKEN_ID toy_hp) / 2"
    by (simp only: greedy_fields gen_state.simps)
  have contrast: "greedy (repetition_penalty 2 [0] [1, 3 / 2, 2]) = 2"
    by (simp add: repetition_penalty_def greedy_def)
  from it greedy_fields(1) greedy_iteration_0 l' t' contrast p' show ?thesis by blast
qed

text \<open>
  The claim as stated fails where it says that the pad token is never part of the
  generated output. With the stride 2 and a budget of 4 tokens the loop writes the
  positions 1 and 3, and the driver returns the first 5 positions of the buffer: the
  positions 2 and 4 hold the pad value 6563. With the stride 1, a sampler that draws
  the token 6563 has it written to the buffer and returned.
\<close>

theorem C10_pad_in_output_counterexample:
  "inference_optimized (scripted_t3 released_hp 8) strided_request None [5, 7]
     = Inr [6561, 5, 6563, 7, 6563]
   \<and> inference_optimized (scripted_t3 released_hp 8) small_request None [6563, 9]
     = Inr [6561, 6563, 9]
   \<and> PAD_TOKEN_ID released_hp = 6563
   \<and> effective_stride strided_request = 2
   \<and> effective_stride small_request = 1"
  using strided_pad_result sampled_pad_result
  by (simp add: PAD_TOKEN_ID_def released_hp_def effective_stride_def strided_request_def
        small_request_def)

section \<open>A claim that is not stated\<close>

text \<open>
  C8 (two runs with one seed produce the same tokens) is not stated here. The driver
  takes no seed; the sampler and the forward passes above are functions of an
  explicit state, so that two runs from one state agree by the reflexivity of
  equality. What the claim is about lies in what \<open>'h\<close> hides: torch's global random
  number generator and the reproducibility of the floating-point kernels.
\<close>

end
